theory Spec2Isabelle
  imports Main "HOL-Library.AList"
begin

section \<open>Data model\<close>

text \<open>
  The module \<^verbatim>\<open>src/gh.js\<close> talks to the Actions API of a repository through an
  authenticated client. A runner as the API lists it carries an id, a name, a status string
  and an ordered sequence of label objects; the module reads only the \<^verbatim>\<open>name\<close> of a label.
\<close>

record runner_label =
  label_name :: string

record runner =
  runner_id :: nat
  runner_name :: string
  runner_status :: string
  runner_labels :: "runner_label list"

text \<open>
  A JavaScript object used as request parameters is an ordered list of keys with their
  values. \<^verbatim>\<open>config.githubContext\<close> is such an object, with the keys \<^verbatim>\<open>owner\<close> and
  \<^verbatim>\<open>repo\<close>.
\<close>

datatype jsval = Str string | Num nat

type_synonym params = "(string \<times> jsval) list"

text \<open>A request either throws or answers with \<^verbatim>\<open>{status, headers, data}\<close>.\<close>

datatype error = RequestError nat string

record 'd response =
  status :: nat
  headers :: "(string \<times> string) list"
  data :: 'd

record runners_data =
  runners :: "runner list"

record token_data =
  token :: string

text \<open>
  The three routes the module requests. The listing route carries the page size and the page
  index in its text, \<^verbatim>\<open>GET /repos/{owner}/{repo}/actions/runners?per_page=..&page=..\<close>.
\<close>

datatype route =
    GET_runners_route nat nat
  | POST_registration_token_route
  | DELETE_runner_route

text \<open>
  The client that \<^verbatim>\<open>github.getOctokit\<close> returns answers each route with that route's
  shape of data. Its first argument is the number of requests the process has sent before,
  so that a client can script a sequence of answers.
\<close>

record client =
  GET_runners :: "nat \<Rightarrow> nat \<Rightarrow> nat \<Rightarrow> params \<Rightarrow> error + runners_data response"
  POST_registration_token :: "nat \<Rightarrow> params \<Rightarrow> error + token_data response"
  DELETE_runner :: "nat \<Rightarrow> params \<Rightarrow> error + unit response"

text \<open>
  The lines written through \<^verbatim>\<open>core.info\<close> and \<^verbatim>\<open>core.error\<close>, one constructor for
  each template of the source, with the values the template interpolates.
\<close>

datatype message =
    GetRunnerWithLabel string
  | SendingRequest nat nat
  | ReceivedRunners nat
  | ResponseHeaders "(string \<times> string) list"
  | GotRunnersInTotal nat
  | AllRunners "runner list"
  | FoundResult "runner option"
  | TokenReceived
  | TokenReceivingError
  | RunnerNotFoundRemovalSkipped string
  | RunnerRemoved string
  | RunnerRemovalError
  | WaitingQuietPeriod nat
  | CheckingEvery nat
  | RunnerRegistrationError
  | RunnerRegistered string
  | Checking

text \<open>
  What the process does, in the order it does it: log lines, requests with the parameters
  they were sent with, the one-shot timer of the quiet period and the firings of the
  repeating timer (both in milliseconds).
\<close>

datatype event =
    Info message
  | Error message
  | Request route params
  | Timeout nat
  | IntervalFired nat

record input =
  githubToken :: string
  label :: string

record config =
  input :: input
  githubContext :: params

record world =
  config :: config
  events :: "event list"

definition emit :: "event \<Rightarrow> world \<Rightarrow> world" where
  "emit e w = w\<lparr>events := events w @ [e]\<rparr>"

definition core_info :: "message \<Rightarrow> world \<Rightarrow> world" where
  "core_info m w = emit (Info m) w"

definition core_error :: "message \<Rightarrow> world \<Rightarrow> world" where
  "core_error m w = emit (Error m) w"

fun is_Request :: "event \<Rightarrow> bool" where
  "is_Request (Request r ps) = True"
| "is_Request e = False"

definition sent :: "world \<Rightarrow> nat" where
  "sent w = length (filter is_Request (events w))"

text \<open>\<^verbatim>\<open>octokit.request(route, parameters)\<close>, for each of the three routes.\<close>

definition request_GET_runners ::
  "client \<Rightarrow> nat \<Rightarrow> nat \<Rightarrow> params \<Rightarrow> world \<Rightarrow> (error + runners_data response) \<times> world" where
  "request_GET_runners octokit per_page page ps w =
     (GET_runners octokit (sent w) per_page page ps,
      emit (Request (GET_runners_route per_page page) ps) w)"

definition request_POST_registration_token ::
  "client \<Rightarrow> params \<Rightarrow> world \<Rightarrow> (error + token_data response) \<times> world" where
  "request_POST_registration_token octokit ps w =
     (POST_registration_token octokit (sent w) ps,
      emit (Request POST_registration_token_route ps) w)"

definition request_DELETE_runner ::
  "client \<Rightarrow> params \<Rightarrow> world \<Rightarrow> (error + unit response) \<times> world" where
  "request_DELETE_runner octokit ps w =
     (DELETE_runner octokit (sent w) ps,
      emit (Request DELETE_runner_route ps) w)"

section \<open>Locating a runner by its label\<close>

definition PAGE_SIZE :: nat where
  "PAGE_SIZE = 100"

text \<open>
  The \<^verbatim>\<open>while (!done)\<close> loop of \<^verbatim>\<open>getRunner\<close>. A request that throws leaves the loop
  with the error; the loop has no bound on the number of pages, so it need not return.
\<close>

partial_function (option) getRunner_while ::
  "client \<Rightarrow> runner list \<Rightarrow> bool \<Rightarrow> nat \<Rightarrow> world \<Rightarrow> ((error + runner list) \<times> world) option" where
  "getRunner_while octokit rs done page w =
     (if done then Some (Inr rs, w)
      else
        let w1 = core_info (SendingRequest PAGE_SIZE page) w;
            (result, w2) = request_GET_runners octokit PAGE_SIZE page (githubContext (config w1)) w1
        in case result of
             Inl error \<Rightarrow> Some (Inl error, w2)
           | Inr response \<Rightarrow>
               let w3 = core_info (ReceivedRunners (length (runners (data response)))) w2;
                   w4 = core_info (ResponseHeaders (headers response)) w3
               in getRunner_while octokit (rs @ runners (data response))
                    (length (runners (data response)) < PAGE_SIZE) (page + 1) w4)"

text \<open>
  Modelled from the spec: \<^verbatim>\<open>_.filter(runners, { labels: [{ name: label }] })\<close> is a call into
  the lodash library, which is not part of the sources. Sections 4.2 and 9 of the specification
  describe it as a shape-based match on the labels sequence that compares the \<^verbatim>\<open>name\<close>
  field. The library matches an array pattern partially and without regard to order: the
  runner's array must be at least as long as the pattern, and every pattern entry must match
  an entry of the runner's array that no earlier pattern entry has used. A pattern entry
  \<^verbatim>\<open>{name: v}\<close> matches a label object whose \<^verbatim>\<open>name\<close> is strictly equal to \<^verbatim>\<open>v\<close>.
  The pattern \<^verbatim>\<open>[{name: label}]\<close> is the list of the names it asks for.
\<close>

fun arraySome :: "string \<Rightarrow> runner_label list \<Rightarrow> nat \<Rightarrow> nat list \<Rightarrow> nat option" where
  "arraySome arrValue [] othIndex seen = None"
| "arraySome arrValue (othValue # other) othIndex seen =
     (if othIndex \<notin> set seen \<and> arrValue = label_name othValue then Some othIndex
      else arraySome arrValue other (Suc othIndex) seen)"

fun equalArrays_loop :: "string list \<Rightarrow> runner_label list \<Rightarrow> nat list \<Rightarrow> bool" where
  "equalArrays_loop [] other seen = True"
| "equalArrays_loop (arrValue # array) other seen =
     (case arraySome arrValue other 0 seen of
        None \<Rightarrow> False
      | Some othIndex \<Rightarrow> equalArrays_loop array other (othIndex # seen))"

definition equalArrays :: "string list \<Rightarrow> runner_label list \<Rightarrow> bool" where
  "equalArrays array other =
     (if length array \<noteq> length other \<and> \<not> length other > length array then False
      else equalArrays_loop array other [])"

definition lodash_filter :: "runner list \<Rightarrow> string list \<Rightarrow> runner list" where
  "lodash_filter rs labels = filter (\<lambda>r. equalArrays labels (runner_labels r)) rs"

text \<open>
  \<^verbatim>\<open>getRunner(label)\<close>. The \<^verbatim>\<open>catch\<close> around the listing and the filter answers
  \<^verbatim>\<open>null\<close>, here \<open>Inr None\<close>; \<open>Inl\<close> would be an exception that leaves the function.
\<close>

definition getRunner ::
  "(string \<Rightarrow> client) \<Rightarrow> string \<Rightarrow> world \<Rightarrow> ((error + runner option) \<times> world) option" where
  "getRunner getOctokit lbl w =
     (let w0 = core_info (GetRunnerWithLabel lbl) w;
          octokit = getOctokit (githubToken (input (config w0)))
      in case getRunner_while octokit [] False 1 w0 of
           None \<Rightarrow> None
         | Some (Inl error, w1) \<Rightarrow> Some (Inr None, w1)
         | Some (Inr rs, w1) \<Rightarrow>
             let w2 = core_info (GotRunnersInTotal (length rs)) w1;
                 w3 = core_info (AllRunners rs) w2;
                 foundRunners = lodash_filter rs [lbl];
                 ret = (if length foundRunners > 0 then Some (foundRunners ! 0) else None);
                 w4 = core_info (FoundResult ret) w3
             in Some (Inr ret, w4))"

section \<open>Registration token\<close>

definition getRegistrationToken ::
  "(string \<Rightarrow> client) \<Rightarrow> world \<Rightarrow> (error + string) \<times> world" where
  "getRegistrationToken getOctokit w =
     (let octokit = getOctokit (githubToken (input (config w)));
          (result, w1) = request_POST_registration_token octokit (githubContext (config w)) w
      in case result of
           Inr response \<Rightarrow> (Inr (token (data response)), core_info TokenReceived w1)
         | Inl error \<Rightarrow> (Inl error, core_error TokenReceivingError w1))"

section \<open>Removing a runner\<close>

text \<open>
  \<^verbatim>\<open>_.merge(config.githubContext, { runner_id: runner.id })\<close> writes the key into its first
  argument, the shared context object, and returns that object: an existing key is
  overwritten in place, a new one is added after the others.
\<close>

definition lodash_merge_runner_id :: "nat \<Rightarrow> world \<Rightarrow> world" where
  "lodash_merge_runner_id n w =
     w\<lparr>config := (config w)\<lparr>githubContext :=
          AList.update ''runner_id'' (Num n) (githubContext (config w))\<rparr>\<rparr>"

definition removeRunner ::
  "(string \<Rightarrow> client) \<Rightarrow> world \<Rightarrow> ((error + unit) \<times> world) option" where
  "removeRunner getOctokit w =
     (case getRunner getOctokit (label (input (config w))) w of
        None \<Rightarrow> None
      | Some (Inl error, w1) \<Rightarrow> Some (Inl error, w1)
      | Some (Inr found, w1) \<Rightarrow>
          (let octokit = getOctokit (githubToken (input (config w1)))
           in case found of
                None \<Rightarrow>
                  Some (Inr (),
                    core_info (RunnerNotFoundRemovalSkipped (label (input (config w1)))) w1)
              | Some r \<Rightarrow>
                  (let w2 = lodash_merge_runner_id (runner_id r) w1;
                       (result, w3) =
                         request_DELETE_runner octokit (githubContext (config w2)) w2
                   in (case result of
                         Inr response \<Rightarrow>
                           Some (Inr (), core_info (RunnerRemoved (runner_name r)) w3)
                       | Inl error \<Rightarrow>
                           Some (Inl error, core_error RunnerRemovalError w3)))))"

section \<open>Waiting for the registration\<close>

definition timeoutMinutes :: nat where
  "timeoutMinutes = 5"

definition retryIntervalSeconds :: nat where
  "retryIntervalSeconds = 10"

definition quietPeriodSeconds :: nat where
  "quietPeriodSeconds = 30"

text \<open>The decimal text of a number, as a template literal writes it.\<close>

function decimal :: "nat \<Rightarrow> string" where
  "decimal n =
     (if n < 10 then [''0123456789'' ! n]
      else decimal (n div 10) @ [''0123456789'' ! (n mod 10)])"
  by pat_completeness auto
termination
  by (relation "measure id") auto

definition timeout_message :: string where
  "timeout_message =
     ''A timeout of '' @ decimal timeoutMinutes @
     '' minutes is exceeded. Your AWS EC2 instance was not able to register itself in GitHub as a new self-hosted runner.''"

text \<open>
  The promise that \<^verbatim>\<open>waitForRunnerRegistered\<close> returns settles once: \<^verbatim>\<open>resolve\<close> and
  \<^verbatim>\<open>reject\<close> on a settled promise change nothing. The state of the wait is the counter
  \<^verbatim>\<open>waitSeconds\<close>, whether the repeating timer is still set, and the promise.
\<close>

datatype promise = Pending | Resolved | Rejected string

record waiter =
  waitSeconds :: nat
  interval :: bool
  promise :: promise

definition clearInterval :: "waiter \<Rightarrow> waiter" where
  "clearInterval st = st\<lparr>interval := False\<rparr>"

definition reject :: "string \<Rightarrow> waiter \<Rightarrow> waiter" where
  "reject reason st = (if promise st = Pending then st\<lparr>promise := Rejected reason\<rparr> else st)"

definition resolve :: "waiter \<Rightarrow> waiter" where
  "resolve st = (if promise st = Pending then st\<lparr>promise := Resolved\<rparr> else st)"

text \<open>
  The callback of the repeating timer. The branch of the timeout has no \<^verbatim>\<open>return\<close>, so
  the test of the runner's status follows it in the same call. An exception out of
  \<^verbatim>\<open>getRunner\<close> would end the call there.
\<close>

definition interval_callback ::
  "(string \<Rightarrow> client) \<Rightarrow> string \<Rightarrow> waiter \<Rightarrow> world \<Rightarrow> (waiter \<times> world) option" where
  "interval_callback getOctokit lbl st w =
     (case getRunner getOctokit lbl w of
        None \<Rightarrow> None
      | Some (Inl error, w1) \<Rightarrow> Some (st, w1)
      | Some (Inr found, w1) \<Rightarrow>
          (let (st1, w2) =
                 (if waitSeconds st > timeoutMinutes * 60
                  then (reject timeout_message (clearInterval st),
                        core_error RunnerRegistrationError w1)
                  else (st, w1))
           in (case found of
                 None \<Rightarrow>
                   Some (st1\<lparr>waitSeconds := waitSeconds st1 + retryIntervalSeconds\<rparr>,
                         core_info Checking w2)
               | Some r \<Rightarrow>
                   (if runner_status r = ''online''
                    then Some (resolve (clearInterval st1),
                               core_info (RunnerRegistered (runner_name r)) w2)
                    else Some (st1\<lparr>waitSeconds := waitSeconds st1 + retryIntervalSeconds\<rparr>,
                               core_info Checking w2)))))"

text \<open>
  \<^verbatim>\<open>setInterval(callback, retryIntervalSeconds * 1000)\<close> for the runs of the timer in
  which every call of the callback ends before the timer fires next, so that no two calls
  overlap: the timer fires and the callback runs, again and again until the callback has
  cleared the timer. A call that never ends leaves the wait without a result. The timer
  itself does not wait for the callback; the event loop with calls that overlap is the
  section on overlapping calls below, and these runs are its schedules in which each answer
  arrives before the next firing (lemma \<open>serial_wait\<close>).
\<close>

partial_function (option) setInterval ::
  "(string \<Rightarrow> client) \<Rightarrow> string \<Rightarrow> waiter \<Rightarrow> world \<Rightarrow> (waiter \<times> world) option" where
  "setInterval getOctokit lbl st w =
     (if \<not> interval st then Some (st, w)
      else
        case interval_callback getOctokit lbl st
               (emit (IntervalFired (retryIntervalSeconds * 1000)) w) of
          None \<Rightarrow> None
        | Some (st', w') \<Rightarrow> setInterval getOctokit lbl st' w')"

text \<open>
  \<^verbatim>\<open>waitForRunnerRegistered(label)\<close>: \<open>Inr ()\<close> is the resolved promise, \<open>Inl reason\<close>
  the rejected one. A promise that is never settled gives no result.
\<close>

definition waitForRunnerRegistered ::
  "(string \<Rightarrow> client) \<Rightarrow> string \<Rightarrow> world \<Rightarrow> ((string + unit) \<times> world) option" where
  "waitForRunnerRegistered getOctokit lbl w =
     (let w1 = core_info (WaitingQuietPeriod quietPeriodSeconds) w;
          w2 = emit (Timeout (quietPeriodSeconds * 1000)) w1;
          w3 = core_info (CheckingEvery retryIntervalSeconds) w2
      in case setInterval getOctokit lbl
                \<lparr>waitSeconds = 0, interval = True, promise = Pending\<rparr> w3 of
           None \<Rightarrow> None
         | Some (st, w4) \<Rightarrow>
             (case promise st of
                Pending \<Rightarrow> None
              | Resolved \<Rightarrow> Some (Inr (), w4)
              | Rejected reason \<Rightarrow> Some (Inl reason, w4)))"

section \<open>Calls of the callback that overlap\<close>

text \<open>
  The timer of \<^verbatim>\<open>setInterval\<close> does not wait for the \<^verbatim>\<open>async\<close> callback: it fires
  every ten seconds while it is set, and a callback that is still waiting for the answer to
  a listing request stays in flight. Between two \<^verbatim>\<open>await\<close>s a callback runs alone. A
  callback in flight is the state of its listing loop: the records collected so far, the
  page it has asked for, and the answer that is on its way.
\<close>

record call =
  call_runners :: "runner list"
  call_page :: nat
  call_response :: "error + runners_data response"

text \<open>One turn of the loop up to its \<^verbatim>\<open>await\<close>: the request for the page is sent.\<close>

definition getRunner_send :: "client \<Rightarrow> runner list \<Rightarrow> nat \<Rightarrow> world \<Rightarrow> call \<times> world" where
  "getRunner_send octokit rs page w =
     (let w1 = core_info (SendingRequest PAGE_SIZE page) w;
          (result, w2) = request_GET_runners octokit PAGE_SIZE page (githubContext (config w1)) w1
      in (\<lparr>call_runners = rs, call_page = page, call_response = result\<rparr>, w2))"

text \<open>
  The callback from the firing of the timer to the first \<^verbatim>\<open>await\<close>: \<^verbatim>\<open>getRunner\<close> is
  entered and the request for page 1 is sent.
\<close>

definition callback_start :: "(string \<Rightarrow> client) \<Rightarrow> string \<Rightarrow> world \<Rightarrow> call \<times> world" where
  "callback_start getOctokit lbl w =
     (let w0 = core_info (GetRunnerWithLabel lbl) w;
          octokit = getOctokit (githubToken (input (config w0)))
      in getRunner_send octokit [] 1 w0)"

text \<open>
  The callback after \<^verbatim>\<open>await getRunner(label)\<close>: the test of the timeout, with no
  \<^verbatim>\<open>return\<close> after \<^verbatim>\<open>reject\<close>, and then the test of the runner's status.
\<close>

definition callback_rest :: "runner option \<Rightarrow> waiter \<Rightarrow> world \<Rightarrow> waiter \<times> world" where
  "callback_rest found st w1 =
     (let (st1, w2) =
            (if waitSeconds st > timeoutMinutes * 60
             then (reject timeout_message (clearInterval st),
                   core_error RunnerRegistrationError w1)
             else (st, w1))
      in (case found of
            None \<Rightarrow>
              (st1\<lparr>waitSeconds := waitSeconds st1 + retryIntervalSeconds\<rparr>,
               core_info Checking w2)
          | Some r \<Rightarrow>
              (if runner_status r = ''online''
               then (resolve (clearInterval st1),
                     core_info (RunnerRegistered (runner_name r)) w2)
               else (st1\<lparr>waitSeconds := waitSeconds st1 + retryIntervalSeconds\<rparr>,
                     core_info Checking w2))))"

text \<open>
  The answer to the request of a callback in flight arrives. An error is caught and
  \<^verbatim>\<open>getRunner\<close> answers \<^verbatim>\<open>null\<close>; a short page ends the loop and \<^verbatim>\<open>getRunner\<close>
  answers the first match; in both cases the rest of the callback follows at once. A full
  page sends the request for the next page, and the callback stays in flight.
\<close>

definition callback_resume ::
  "(string \<Rightarrow> client) \<Rightarrow> string \<Rightarrow> call \<Rightarrow> waiter \<Rightarrow> world \<Rightarrow> call option \<times> waiter \<times> world" where
  "callback_resume getOctokit lbl c st w =
     (case call_response c of
        Inl error \<Rightarrow>
          (let (st', w') = callback_rest None st w in (None, st', w'))
      | Inr response \<Rightarrow>
          (let w3 = core_info (ReceivedRunners (length (runners (data response)))) w;
               w4 = core_info (ResponseHeaders (headers response)) w3;
               rs = call_runners c @ runners (data response)
           in if length (runners (data response)) < PAGE_SIZE
              then
                (let w5 = core_info (GotRunnersInTotal (length rs)) w4;
                     w6 = core_info (AllRunners rs) w5;
                     foundRunners = lodash_filter rs [lbl];
                     ret = (if length foundRunners > 0 then Some (foundRunners ! 0) else None);
                     w7 = core_info (FoundResult ret) w6;
                     (st', w') = callback_rest ret st w7
                 in (None, st', w'))
              else
                (let octokit = getOctokit (githubToken (input (config w4)));
                     (c', w5) = getRunner_send octokit rs (call_page c + 1) w4
                 in (Some c', st, w5))))"

text \<open>
  The event loop of the wait: the state of the promise and the timer, the callbacks in
  flight, oldest first, and the trace. An action is a firing of the timer, which starts a
  callback while the timer is set, or the arrival of the answer for the callback at a
  position of the list. A schedule is a list of actions: the order in which timer and
  network happen to deliver.
\<close>

record system =
  sys_waiter :: waiter
  sys_calls :: "call list"
  sys_world :: world

datatype action = Fire | Answer nat

fun step :: "(string \<Rightarrow> client) \<Rightarrow> string \<Rightarrow> action \<Rightarrow> system \<Rightarrow> system" where
  "step getOctokit lbl Fire s =
     (if interval (sys_waiter s)
      then
        (let (c, w) = callback_start getOctokit lbl
                        (emit (IntervalFired (retryIntervalSeconds * 1000)) (sys_world s))
         in s\<lparr>sys_calls := sys_calls s @ [c], sys_world := w\<rparr>)
      else s)"
| "step getOctokit lbl (Answer k) s =
     (if k < length (sys_calls s)
      then
        (let (c', st, w) = callback_resume getOctokit lbl (sys_calls s ! k) (sys_waiter s)
                             (sys_world s)
         in \<lparr>sys_waiter = st,
             sys_calls =
               (case c' of
                  None \<Rightarrow> take k (sys_calls s) @ drop (Suc k) (sys_calls s)
                | Some c \<Rightarrow> (sys_calls s)[k := c]),
             sys_world = w\<rparr>)
      else s)"

fun run :: "(string \<Rightarrow> client) \<Rightarrow> string \<Rightarrow> action list \<Rightarrow> system \<Rightarrow> system" where
  "run getOctokit lbl [] s = s"
| "run getOctokit lbl (a # sched) s = run getOctokit lbl sched (step getOctokit lbl a s)"

text \<open>
  \<^verbatim>\<open>waitForRunnerRegistered(label)\<close> up to the point where the timer is set and the
  promise is returned.
\<close>

definition wait_start :: "world \<Rightarrow> system" where
  "wait_start w =
     (let w1 = core_info (WaitingQuietPeriod quietPeriodSeconds) w;
          w2 = emit (Timeout (quietPeriodSeconds * 1000)) w1;
          w3 = core_info (CheckingEvery retryIntervalSeconds) w2
      in \<lparr>sys_waiter = \<lparr>waitSeconds = 0, interval = True, promise = Pending\<rparr>,
          sys_calls = [],
          sys_world = w3\<rparr>)"

text \<open>
  What \<^verbatim>\<open>getRunner\<close> does once its loop has ended: the \<^verbatim>\<open>catch\<close> answers
  \<^verbatim>\<open>null\<close> for an error, and a list of runners is logged and filtered.
\<close>

definition getRunner_return ::
  "string \<Rightarrow> (error + runner list) \<times> world \<Rightarrow> runner option \<times> world" where
  "getRunner_return lbl y =
     (case y of
        (Inl error, w1) \<Rightarrow> (None, w1)
      | (Inr rs, w1) \<Rightarrow>
          (let w2 = core_info (GotRunnersInTotal (length rs)) w1;
               w3 = core_info (AllRunners rs) w2;
               foundRunners = lodash_filter rs [lbl];
               ret = (if length foundRunners > 0 then Some (foundRunners ! 0) else None);
               w4 = core_info (FoundResult ret) w3
           in (ret, w4)))"

section \<open>Reading a trace\<close>

text \<open>
  The requests for the removal of a runner and the calls of \<^verbatim>\<open>getRunner\<close> in a trace;
  each call of \<^verbatim>\<open>getRunner\<close> starts with its line \<^verbatim>\<open>Get runner with label\<close>.
\<close>

fun is_DELETE :: "event \<Rightarrow> bool" where
  "is_DELETE (Request DELETE_runner_route ps) = True"
| "is_DELETE e = False"

fun is_locate :: "event \<Rightarrow> bool" where
  "is_locate (Info (GetRunnerWithLabel l)) = True"
| "is_locate e = False"

fun is_IntervalFired :: "event \<Rightarrow> bool" where
  "is_IntervalFired (IntervalFired ms) = True"
| "is_IntervalFired e = False"

text \<open>
  What one turn of the listing loop leaves in the trace for each page that was answered,
  from the page index \<open>page\<close> on.
\<close>

fun listing_events :: "params \<Rightarrow> nat \<Rightarrow> runners_data response list \<Rightarrow> event list" where
  "listing_events ctx page [] = []"
| "listing_events ctx page (p # ps) =
     [Info (SendingRequest PAGE_SIZE page),
      Request (GET_runners_route PAGE_SIZE page) ctx,
      Info (ReceivedRunners (length (runners (data p)))),
      Info (ResponseHeaders (headers p))] @ listing_events ctx (Suc page) ps"

section \<open>Test doubles\<close>

text \<open>
  A client whose listing answers by the number of the request, and whose token and removal
  requests have one fixed answer each; the repository of the end-to-end scenario, with its
  one runner \<^verbatim>\<open>{id: 1, name: "r1", labels: [{name: "x"}], status: "offline"}\<close>.
\<close>

definition ok :: "'d \<Rightarrow> 'd response" where
  "ok d = \<lparr>status = 200, headers = [], data = d\<rparr>"

definition mock_client ::
  "(nat \<Rightarrow> error + runners_data response) \<Rightarrow> (error + token_data response) \<Rightarrow>
   (error + unit response) \<Rightarrow> client" where
  "mock_client listing tok del =
     \<lparr>GET_runners = (\<lambda>n per_page page ps. listing n),
      POST_registration_token = (\<lambda>n ps. tok),
      DELETE_runner = (\<lambda>n ps. del)\<rparr>"

definition page_of :: "runner list \<Rightarrow> runners_data response" where
  "page_of rs = ok \<lparr>runners = rs\<rparr>"

definition r1 :: runner where
  "r1 = \<lparr>runner_id = 1, runner_name = ''r1'', runner_status = ''offline'',
          runner_labels = [\<lparr>label_name = ''x''\<rparr>]\<rparr>"

definition world0 :: world where
  "world0 =
     \<lparr>config = \<lparr>input = \<lparr>githubToken = ''secret'', label = ''x''\<rparr>,
                githubContext = [(''owner'', Str ''octo''), (''repo'', Str ''demo'')]\<rparr>,
      events = []\<rparr>"

definition three_pages :: "runners_data response list" where
  "three_pages = [page_of (replicate 100 r1), page_of (replicate 100 r1), page_of []]"

definition r2 :: runner where
  "r2 = \<lparr>runner_id = 2, runner_name = ''r2'', runner_status = ''online'',
          runner_labels = [\<lparr>label_name = ''self-hosted''\<rparr>, \<lparr>label_name = ''x''\<rparr>]\<rparr>"

definition r3 :: runner where
  "r3 = \<lparr>runner_id = 3, runner_name = ''r3'', runner_status = ''offline'',
          runner_labels = [\<lparr>label_name = ''self-hosted''\<rparr>, \<lparr>label_name = ''y''\<rparr>]\<rparr>"

definition never_registered :: "string \<Rightarrow> client" where
  "never_registered t =
     mock_client (\<lambda>n. Inr (page_of [])) (Inr (ok \<lparr>token = ''abc''\<rparr>)) (Inr (ok ()))"

definition scenario :: "string \<Rightarrow> client" where
  "scenario t =
     mock_client (\<lambda>n. Inr (page_of [r1])) (Inr (ok \<lparr>token = ''abc''\<rparr>)) (Inr (ok ()))"

definition registered :: "string \<Rightarrow> client" where
  "registered t =
     mock_client (\<lambda>n. Inr (page_of [r3, r2, r1])) (Inr (ok \<lparr>token = ''abc''\<rparr>)) (Inr (ok ()))"

definition locate_calls :: "world \<Rightarrow> nat" where
  "locate_calls w = length (filter is_locate (events w))"

definition timed_out_waiter :: waiter where
  "timed_out_waiter = \<lparr>waitSeconds = 310, interval = True, promise = Pending\<rparr>"





section \<open>The trace primitives\<close>

lemma config_emit [simp]: "config (emit e w) = config w"
  by (simp add: emit_def)

lemma events_emit [simp]: "events (emit e w) = events w @ [e]"
  by (simp add: emit_def)

lemma sent_emit [simp]: "sent (emit e w) = (if is_Request e then Suc (sent w) else sent w)"
  by (simp add: sent_def)

lemma config_core_info [simp]: "config (core_info m w) = config w"
  by (simp add: core_info_def)

lemma events_core_info [simp]: "events (core_info m w) = events w @ [Info m]"
  by (simp add: core_info_def)

lemma sent_core_info [simp]: "sent (core_info m w) = sent w"
  by (simp add: core_info_def)

lemma config_core_error [simp]: "config (core_error m w) = config w"
  by (simp add: core_error_def)

lemma events_core_error [simp]: "events (core_error m w) = events w @ [Error m]"
  by (simp add: core_error_def)

lemma sent_core_error [simp]: "sent (core_error m w) = sent w"
  by (simp add: core_error_def)

lemma getRunner_while_done: "getRunner_while octokit rs True page w = Some (Inr rs, w)"
  by (subst getRunner_while.simps) simp

lemma getRunner_while_step:
  "getRunner_while octokit rs False page w =
     (case GET_runners octokit (sent w) PAGE_SIZE page (githubContext (config w)) of
        Inl error \<Rightarrow>
          Some (Inl error,
            emit (Request (GET_runners_route PAGE_SIZE page) (githubContext (config w)))
              (core_info (SendingRequest PAGE_SIZE page) w))
      | Inr response \<Rightarrow>
          getRunner_while octokit (rs @ runners (data response))
            (length (runners (data response)) < PAGE_SIZE) (page + 1)
            (core_info (ResponseHeaders (headers response))
              (core_info (ReceivedRunners (length (runners (data response))))
                (emit (Request (GET_runners_route PAGE_SIZE page) (githubContext (config w)))
                  (core_info (SendingRequest PAGE_SIZE page) w)))))"
  by (subst getRunner_while.simps) (simp add: request_GET_runners_def split: sum.splits)


lemma world_eqI: "config w = config w' \<Longrightarrow> events w = events w' \<Longrightarrow> (w::world) = w'"
  by simp

lemma getRunner_while_full_pages:
  assumes "\<forall>i<length pages.
             GET_runners octokit (sent w + i) PAGE_SIZE (page + i) (githubContext (config w))
               = Inr (pages ! i)"
    and "\<forall>i<length pages. PAGE_SIZE \<le> length (runners (data (pages ! i)))"
  shows "getRunner_while octokit rs False page w =
           getRunner_while octokit (rs @ concat (map (\<lambda>p. runners (data p)) pages)) False
             (page + length pages)
             (w\<lparr>events := events w @ listing_events (githubContext (config w)) page pages\<rparr>)"
  using assms
proof (induction pages arbitrary: rs page w)
  case Nil
  then show ?case by simp
next
  case (Cons p ps)
  let ?ctx = "githubContext (config w)"
  let ?w4 = "core_info (ResponseHeaders (headers p))
              (core_info (ReceivedRunners (length (runners (data p))))
                (emit (Request (GET_runners_route PAGE_SIZE page) ?ctx)
                  (core_info (SendingRequest PAGE_SIZE page) w)))"
  from Cons.prems(1) have first: "GET_runners octokit (sent w) PAGE_SIZE page ?ctx = Inr p"
    by force
  from Cons.prems(2) have full: "\<not> length (runners (data p)) < PAGE_SIZE"
    by force
  have step: "getRunner_while octokit rs False page w =
                getRunner_while octokit (rs @ runners (data p)) False (Suc page) ?w4"
    by (subst getRunner_while_step) (simp add: first full)
  have rest1: "\<forall>i<length ps.
                 GET_runners octokit (sent ?w4 + i) PAGE_SIZE (Suc page + i)
                   (githubContext (config ?w4)) = Inr (ps ! i)"
  proof (intro allI impI)
    fix i assume "i < length ps"
    then have "Suc i < length (p # ps)" by simp
    with Cons.prems(1) have "GET_runners octokit (sent w + Suc i) PAGE_SIZE (page + Suc i) ?ctx
                               = Inr ((p # ps) ! Suc i)"
      by blast
    then show "GET_runners octokit (sent ?w4 + i) PAGE_SIZE (Suc page + i)
                 (githubContext (config ?w4)) = Inr (ps ! i)"
      by simp
  qed
  have rest2: "\<forall>i<length ps. PAGE_SIZE \<le> length (runners (data (ps ! i)))"
    using Cons.prems(2) by fastforce
  have w_eq: "?w4\<lparr>events := events ?w4 @ listing_events (githubContext (config ?w4)) (Suc page) ps\<rparr>
                = w\<lparr>events := events w @ listing_events ?ctx page (p # ps)\<rparr>"
    by (rule world_eqI) simp_all
  note step
  also have "getRunner_while octokit (rs @ runners (data p)) False (Suc page) ?w4 =
      getRunner_while octokit
        ((rs @ runners (data p)) @ concat (map (\<lambda>p. runners (data p)) ps)) False
        (Suc page + length ps)
        (?w4\<lparr>events :=
           events ?w4 @ listing_events (githubContext (config ?w4)) (Suc page) ps\<rparr>)"
    by (rule Cons.IH [OF rest1 rest2])
  also have "\<dots> =
      getRunner_while octokit (rs @ concat (map (\<lambda>p. runners (data p)) (p # ps))) False
        (page + length (p # ps))
        (w\<lparr>events := events w @ listing_events ?ctx page (p # ps)\<rparr>)"
    unfolding w_eq by simp
  finally show ?case .
qed


lemma requests_listing_events:
  "filter is_Request (listing_events ctx page ps) =
     map (\<lambda>i. Request (GET_runners_route PAGE_SIZE (page + i)) ctx) [0..<length ps]"
proof (induction ps arbitrary: page)
  case Nil
  then show ?case by simp
next
  case (Cons p ps)
  have "map (\<lambda>i. Request (GET_runners_route PAGE_SIZE (page + i)) ctx) [0..<length (p # ps)] =
        Request (GET_runners_route PAGE_SIZE page) ctx #
        map (\<lambda>i. Request (GET_runners_route PAGE_SIZE (Suc page + i)) ctx) [0..<length ps]"
    by (simp add: upt_conv_Cons map_Suc_upt [symmetric] del: upt_Suc)
  with Cons show ?case by simp
qed

lemma listing_events_append:
  "listing_events ctx page (ps @ qs) =
     listing_events ctx page ps @ listing_events ctx (page + length ps) qs"
  by (induction ps arbitrary: page) simp_all

lemma filter_DELETE_listing_events: "filter is_DELETE (listing_events ctx page ps) = []"
  by (induction ps arbitrary: page) simp_all

lemma sent_after_listing:
  "sent (w\<lparr>events := events w @ listing_events ctx page ps\<rparr>) = sent w + length ps"
  by (simp add: sent_def requests_listing_events)

lemma getRunner_while_short_page:
  assumes "\<forall>i<length pages.
             GET_runners octokit (sent w + i) PAGE_SIZE (page + i) (githubContext (config w))
               = Inr (pages ! i)"
    and "\<forall>i<length pages. PAGE_SIZE \<le> length (runners (data (pages ! i)))"
    and "GET_runners octokit (sent w + length pages) PAGE_SIZE (page + length pages)
           (githubContext (config w)) = Inr p"
    and "length (runners (data p)) < PAGE_SIZE"
  shows "getRunner_while octokit rs False page w =
           Some (Inr (rs @ concat (map (\<lambda>p. runners (data p)) (pages @ [p]))),
                 w\<lparr>events := events w @
                     listing_events (githubContext (config w)) page (pages @ [p])\<rparr>)"
proof -
  let ?ctx = "githubContext (config w)"
  let ?wk = "w\<lparr>events := events w @ listing_events ?ctx page pages\<rparr>"
  have "getRunner_while octokit rs False page w =
          getRunner_while octokit (rs @ concat (map (\<lambda>p. runners (data p)) pages)) False
            (page + length pages) ?wk"
    by (rule getRunner_while_full_pages [OF assms(1,2)])
  also have "\<dots> = Some (Inr (rs @ concat (map (\<lambda>p. runners (data p)) (pages @ [p]))),
                 w\<lparr>events := events w @ listing_events ?ctx page (pages @ [p])\<rparr>)"
    by (subst getRunner_while_step)
      (simp add: sent_after_listing assms(3,4) getRunner_while_done listing_events_append)
  finally show ?thesis .
qed

lemma getRunner_while_request_fails:
  assumes "\<forall>i<length pages.
             GET_runners octokit (sent w + i) PAGE_SIZE (page + i) (githubContext (config w))
               = Inr (pages ! i)"
    and "\<forall>i<length pages. PAGE_SIZE \<le> length (runners (data (pages ! i)))"
    and "GET_runners octokit (sent w + length pages) PAGE_SIZE (page + length pages)
           (githubContext (config w)) = Inl e"
  shows "getRunner_while octokit rs False page w =
           Some (Inl e,
                 w\<lparr>events := events w @
                     listing_events (githubContext (config w)) page pages @
                     [Info (SendingRequest PAGE_SIZE (page + length pages)),
                      Request (GET_runners_route PAGE_SIZE (page + length pages))
                        (githubContext (config w))]\<rparr>)"
proof -
  let ?ctx = "githubContext (config w)"
  let ?wk = "w\<lparr>events := events w @ listing_events ?ctx page pages\<rparr>"
  have "getRunner_while octokit rs False page w =
          getRunner_while octokit (rs @ concat (map (\<lambda>p. runners (data p)) pages)) False
            (page + length pages) ?wk"
    by (rule getRunner_while_full_pages [OF assms(1,2)])
  also have "\<dots> = Some (Inl e,
                 w\<lparr>events := events w @ listing_events ?ctx page pages @
                     [Info (SendingRequest PAGE_SIZE (page + length pages)),
                      Request (GET_runners_route PAGE_SIZE (page + length pages)) ?ctx]\<rparr>)"
    by (subst getRunner_while_step) (simp add: sent_after_listing assms(3))
  finally show ?thesis .
qed

lemma arraySome_unseen:
  "(arraySome v other i [] = None) = (\<forall>l\<in>set other. label_name l \<noteq> v)"
  by (induction other arbitrary: i) auto

lemma equalArrays_single:
  "equalArrays [v] other = (\<exists>l\<in>set other. label_name l = v)"
proof (cases "arraySome v other 0 []")
  case None
  then show ?thesis
    using arraySome_unseen [of v other 0] by (auto simp: equalArrays_def)
next
  case (Some i)
  then have ex: "\<exists>l\<in>set other. label_name l = v"
    using arraySome_unseen [of v other 0] by auto
  then have "other \<noteq> []" by auto
  then have "length other = 1 \<or> length other > 1"
    by (cases other) auto
  with Some ex show ?thesis
    by (auto simp: equalArrays_def)
qed

lemma first_of_filter:
  "(if length (filter P xs) > 0 then Some (filter P xs ! 0) else None) = find P xs"
  by (induction xs) auto

lemma getRunner_after_listing:
  assumes "getRunner_while (getOctokit (githubToken (input (config w)))) [] False 1
             (core_info (GetRunnerWithLabel lbl) w) = Some (Inr rs, w1)"
  shows "getRunner getOctokit lbl w =
           Some (Inr (find (\<lambda>r. \<exists>l\<in>set (runner_labels r). label_name l = lbl) rs),
                 w1\<lparr>events := events w1 @
                   [Info (GotRunnersInTotal (length rs)), Info (AllRunners rs),
                    Info (FoundResult
                      (find (\<lambda>r. \<exists>l\<in>set (runner_labels r). label_name l = lbl) rs))]\<rparr>)"
  using assms
  unfolding getRunner_def Let_def lodash_filter_def equalArrays_single first_of_filter
  by (simp add: core_info_def emit_def)

lemma getRunner_after_error:
  assumes "getRunner_while (getOctokit (githubToken (input (config w)))) [] False 1
             (core_info (GetRunnerWithLabel lbl) w) = Some (Inl e, w1)"
  shows "getRunner getOctokit lbl w = Some (Inr None, w1)"
  using assms by (simp add: getRunner_def)

lemma getRunner_never_throws: "getRunner getOctokit lbl w \<noteq> Some (Inl e, w')"
  by (auto simp: getRunner_def Let_def split: option.splits sum.splits prod.splits)

lemma getRunner_while_returns:
  assumes "pages \<noteq> []"
    and "\<forall>i<length pages.
           GET_runners octokit (sent w + i) PAGE_SIZE (page + i) (githubContext (config w))
             = Inr (pages ! i)"
    and "\<forall>i<length pages.
           (length (runners (data (pages ! i))) < PAGE_SIZE) = (Suc i = length pages)"
  shows "getRunner_while octokit rs False page w =
           Some (Inr (rs @ concat (map (\<lambda>p. runners (data p)) pages)),
                 w\<lparr>events := events w @
                     listing_events (githubContext (config w)) page pages\<rparr>)"
proof -
  from assms(1) obtain ps p where split: "pages = ps @ [p]"
    by (cases pages rule: rev_cases) auto
  have a1: "\<forall>i<length ps.
           GET_runners octokit (sent w + i) PAGE_SIZE (page + i) (githubContext (config w))
             = Inr (ps ! i)"
  proof (intro allI impI)
    fix i assume i: "i < length ps"
    then have "i < length pages" by (simp add: split)
    with assms(2) have "GET_runners octokit (sent w + i) PAGE_SIZE (page + i)
                          (githubContext (config w)) = Inr (pages ! i)"
      by blast
    with i show "GET_runners octokit (sent w + i) PAGE_SIZE (page + i)
                   (githubContext (config w)) = Inr (ps ! i)"
      by (simp add: split nth_append)
  qed
  have a2: "\<forall>i<length ps. PAGE_SIZE \<le> length (runners (data (ps ! i)))"
  proof (intro allI impI)
    fix i assume i: "i < length ps"
    then have "i < length pages" and "Suc i \<noteq> length pages" by (simp_all add: split)
    with assms(3) have "\<not> length (runners (data (pages ! i))) < PAGE_SIZE"
      by blast
    with i show "PAGE_SIZE \<le> length (runners (data (ps ! i)))"
      by (simp add: split nth_append)
  qed
  have "length ps < length pages" by (simp add: split)
  with assms(2) have "GET_runners octokit (sent w + length ps) PAGE_SIZE (page + length ps)
           (githubContext (config w)) = Inr (pages ! length ps)"
    by blast
  then have a3: "GET_runners octokit (sent w + length ps) PAGE_SIZE (page + length ps)
           (githubContext (config w)) = Inr p"
    by (simp add: split)
  have "length ps < length pages" and "Suc (length ps) = length pages" by (simp_all add: split)
  with assms(3) have "length (runners (data (pages ! length ps))) < PAGE_SIZE"
    by blast
  then have a4: "length (runners (data p)) < PAGE_SIZE"
    by (simp add: split)
  show ?thesis
    using getRunner_while_short_page [OF a1 a2 a3 a4, of rs] by (simp only: split)
qed

section \<open>Registration token: success and failure\<close>

text \<open>
  C7. \<^verbatim>\<open>getRegistrationToken\<close> sends one POST request. When the request succeeds the
  operation returns the token of the response data, after the line that the token is
  received. When the request throws, the operation logs one error line and throws the same
  error to its caller; it sends no second request.
\<close>

theorem getRegistrationToken_outcome:
  "getRegistrationToken getOctokit w =
     (case POST_registration_token (getOctokit (githubToken (input (config w)))) (sent w)
             (githubContext (config w)) of
        Inr response \<Rightarrow>
          (Inr (token (data response)),
           w\<lparr>events := events w @
               [Request POST_registration_token_route (githubContext (config w)),
                Info TokenReceived]\<rparr>)
      | Inl error \<Rightarrow>
          (Inl error,
           w\<lparr>events := events w @
               [Request POST_registration_token_route (githubContext (config w)),
                Error TokenReceivingError]\<rparr>))"
  by (simp add: getRegistrationToken_def request_POST_registration_token_def
        core_info_def core_error_def emit_def split: sum.splits)

theorem getRegistrationToken_outcome_witness:
  "getRegistrationToken
     (\<lambda>t. mock_client (\<lambda>n. Inr (page_of [])) (Inr (ok \<lparr>token = ''abc''\<rparr>)) (Inr (ok ())))
     world0 =
   (Inr ''abc'',
    world0\<lparr>events :=
      [Request POST_registration_token_route [(''owner'', Str ''octo''), (''repo'', Str ''demo'')],
       Info TokenReceived]\<rparr>) \<and>
   getRegistrationToken
     (\<lambda>t. mock_client (\<lambda>n. Inr (page_of [])) (Inl (RequestError 500 ''down'')) (Inr (ok ())))
     world0 =
   (Inl (RequestError 500 ''down''),
    world0\<lparr>events :=
      [Request POST_registration_token_route [(''owner'', Str ''octo''), (''repo'', Str ''demo'')],
       Error TokenReceivingError]\<rparr>)"
  using getRegistrationToken_outcome
          [of "\<lambda>t. mock_client (\<lambda>n. Inr (page_of [])) (Inr (ok \<lparr>token = ''abc''\<rparr>)) (Inr (ok ()))"
              world0]
        getRegistrationToken_outcome
          [of "\<lambda>t. mock_client (\<lambda>n. Inr (page_of [])) (Inl (RequestError 500 ''down'')) (Inr (ok ()))"
              world0]
  by (simp add: mock_client_def ok_def world0_def)

text \<open>
  The loop has no other way to return a list: against a client that answers every request
  with a full page it never returns.
\<close>

lemma getRunner_while_endless:
  assumes full: "\<And>n page ps. \<exists>response.
             GET_runners octokit n PAGE_SIZE page ps = Inr response \<and>
             PAGE_SIZE \<le> length (runners (data response))"
  shows "getRunner_while octokit rs False page w = None"
proof (rule ccontr)
  assume "getRunner_while octokit rs False page w \<noteq> None"
  then obtain y where ret: "getRunner_while octokit rs False page w = Some y"
    by blast
  have "octokit = octokit \<longrightarrow> False"
  proof (rule getRunner_while.raw_induct
      [where P = "\<lambda>octokit' rs fin page w y. octokit' = octokit \<longrightarrow> fin", OF _ ret])
    fix f :: "client \<Rightarrow> runner list \<Rightarrow> bool \<Rightarrow> nat \<Rightarrow> world \<Rightarrow> ((error + runner list) \<times> world) option"
    fix octokit' rs fin page w y
    assume IH: "\<And>octokit' rs fin page w y. f octokit' rs fin page w = Some y \<Longrightarrow>
                  octokit' = octokit \<longrightarrow> fin"
    assume eq: "(if fin then Some (Inr rs, w)
      else
        let w1 = core_info (SendingRequest PAGE_SIZE page) w;
            (result, w2) = request_GET_runners octokit' PAGE_SIZE page (githubContext (config w1)) w1
        in case result of
             Inl error \<Rightarrow> Some (Inl error, w2)
           | Inr response \<Rightarrow>
               let w3 = core_info (ReceivedRunners (length (runners (data response)))) w2;
                   w4 = core_info (ResponseHeaders (headers response)) w3
               in f octokit' (rs @ runners (data response))
                    (length (runners (data response)) < PAGE_SIZE) (page + 1) w4) = Some y"
    show "octokit' = octokit \<longrightarrow> fin"
    proof (intro impI, rule ccontr)
      assume o: "octokit' = octokit" and nf: "\<not> fin"
      from full [of "sent w" page "githubContext (config w)"] obtain response where
        g: "GET_runners octokit (sent w) PAGE_SIZE page (githubContext (config w)) = Inr response"
        and big: "PAGE_SIZE \<le> length (runners (data response))"
        by blast
      from eq nf o g have "f octokit (rs @ runners (data response))
             (length (runners (data response)) < PAGE_SIZE) (page + 1)
             (core_info (ResponseHeaders (headers response))
               (core_info (ReceivedRunners (length (runners (data response))))
                 (emit (Request (GET_runners_route PAGE_SIZE page) (githubContext (config w)))
                   (core_info (SendingRequest PAGE_SIZE page) w)))) = Some y"
        by (simp add: request_GET_runners_def)
      from IH [OF this] big show False
        by simp
    qed
  qed
  then show False by simp
qed

section \<open>Pagination of the listing\<close>

text \<open>
  C4. The listing loop of \<^verbatim>\<open>getRunner\<close> asks for pages of 100 records, the first
  request for page 1 and each further request for the next page. When the client answers the
  pages 1 to k, of which only the last has fewer than 100 records, the loop sends exactly
  these k requests, in this order, and returns the records of all k pages in their order.
  For answers of 100, 100 and 0 records this gives three requests and 200 records.
\<close>

theorem getRunner_while_pagination:
  assumes "pages \<noteq> []"
    and "\<forall>i<length pages.
           GET_runners octokit (sent w + i) 100 (Suc i) (githubContext (config w))
             = Inr (pages ! i)"
    and "\<forall>i<length pages.
           (length (runners (data (pages ! i))) < 100) = (Suc i = length pages)"
  shows "\<exists>w'. getRunner_while octokit [] False 1 w =
                 Some (Inr (concat (map (\<lambda>p. runners (data p)) pages)), w') \<and>
              filter is_Request (events w') =
                filter is_Request (events w) @
                map (\<lambda>i. Request (GET_runners_route 100 (Suc i)) (githubContext (config w)))
                  [0..<length pages]"
proof -
  have "getRunner_while octokit [] False 1 w =
          Some (Inr ([] @ concat (map (\<lambda>p. runners (data p)) pages)),
                w\<lparr>events := events w @ listing_events (githubContext (config w)) 1 pages\<rparr>)"
    using assms by (intro getRunner_while_returns) (simp_all add: PAGE_SIZE_def)
  then show ?thesis
    by (simp add: requests_listing_events PAGE_SIZE_def)
qed

theorem getRunner_while_pagination_witness:
  "\<exists>w'. getRunner_while
          (mock_client (\<lambda>n. Inr (three_pages ! min n 2)) (Inr (ok \<lparr>token = ''abc''\<rparr>))
             (Inr (ok ())))
          [] False 1 world0 =
        Some (Inr (replicate 100 r1 @ replicate 100 r1), w') \<and>
        length (replicate 100 r1 @ replicate 100 r1) = 200 \<and>
        filter is_Request (events w') =
          [Request (GET_runners_route 100 1) [(''owner'', Str ''octo''), (''repo'', Str ''demo'')],
           Request (GET_runners_route 100 2) [(''owner'', Str ''octo''), (''repo'', Str ''demo'')],
           Request (GET_runners_route 100 3) [(''owner'', Str ''octo''), (''repo'', Str ''demo'')]]"
proof -
  let ?octokit = "mock_client (\<lambda>n. Inr (three_pages ! min n 2)) (Inr (ok \<lparr>token = ''abc''\<rparr>))
             (Inr (ok ()))"
  have h1: "three_pages \<noteq> []"
    by (simp add: three_pages_def)
  have h2: "\<forall>i<length three_pages.
           GET_runners ?octokit (sent world0 + i) 100 (Suc i) (githubContext (config world0))
             = Inr (three_pages ! i)"
    by (simp add: three_pages_def mock_client_def world0_def sent_def less_Suc_eq)
  have h3: "\<forall>i<length three_pages.
           (length (runners (data (three_pages ! i))) < 100) = (Suc i = length three_pages)"
    by (auto simp: three_pages_def page_of_def ok_def less_Suc_eq)
  show ?thesis
    using getRunner_while_pagination [OF h1 h2 h3]
    by (simp add: three_pages_def page_of_def ok_def world0_def upt_rec numeral_2_eq_2
          numeral_3_eq_3)
qed


section \<open>The runner that is located\<close>

text \<open>
  C2. When the listing returns, \<^verbatim>\<open>getRunner(label)\<close> returns the first runner of the
  listing, in its order, that has a label object with a name equal to the label at any
  position of its labels, and \<^verbatim>\<open>null\<close> when the listing has no such runner.
\<close>

theorem getRunner_first_match:
  assumes "pages \<noteq> []"
    and "\<forall>i<length pages.
           GET_runners (getOctokit (githubToken (input (config w)))) (sent w + i) 100 (Suc i)
             (githubContext (config w)) = Inr (pages ! i)"
    and "\<forall>i<length pages.
           (length (runners (data (pages ! i))) < 100) = (Suc i = length pages)"
  shows "\<exists>w'. getRunner getOctokit lbl w =
                 Some (Inr (find (\<lambda>r. \<exists>l\<in>set (runner_labels r). label_name l = lbl)
                              (concat (map (\<lambda>p. runners (data p)) pages))), w')"
proof -
  let ?w0 = "core_info (GetRunnerWithLabel lbl) w"
  have "getRunner_while (getOctokit (githubToken (input (config w)))) [] False 1 ?w0 =
          Some (Inr ([] @ concat (map (\<lambda>p. runners (data p)) pages)),
                ?w0\<lparr>events := events ?w0 @
                       listing_events (githubContext (config ?w0)) 1 pages\<rparr>)"
    using assms by (intro getRunner_while_returns) (simp_all add: PAGE_SIZE_def)
  then have "getRunner_while (getOctokit (githubToken (input (config w)))) [] False 1 ?w0 =
          Some (Inr (concat (map (\<lambda>p. runners (data p)) pages)),
                ?w0\<lparr>events := events ?w0 @
                       listing_events (githubContext (config ?w0)) 1 pages\<rparr>)"
    by simp
  from getRunner_after_listing [where getOctokit = getOctokit, OF this] show ?thesis
    by blast
qed

theorem getRunner_first_match_witness:
  "\<exists>w'. getRunner
          (\<lambda>t. mock_client (\<lambda>n. Inr (page_of [r3, r2, r1])) (Inr (ok \<lparr>token = ''abc''\<rparr>))
                  (Inr (ok ())))
          ''x'' world0 = Some (Inr (Some r2), w')"
proof -
  let ?getOctokit = "\<lambda>t::string. mock_client (\<lambda>n. Inr (page_of [r3, r2, r1]))
                       (Inr (ok \<lparr>token = ''abc''\<rparr>)) (Inr (ok ()))"
  have h1: "[page_of [r3, r2, r1]] \<noteq> []"
    by simp
  have h2: "\<forall>i<length [page_of [r3, r2, r1]].
           GET_runners (?getOctokit (githubToken (input (config world0)))) (sent world0 + i) 100
             (Suc i) (githubContext (config world0)) = Inr ([page_of [r3, r2, r1]] ! i)"
    by (simp add: mock_client_def)
  have h3: "\<forall>i<length [page_of [r3, r2, r1]].
           (length (runners (data ([page_of [r3, r2, r1]] ! i))) < 100) =
           (Suc i = length [page_of [r3, r2, r1]])"
    by (simp add: page_of_def ok_def)
  show ?thesis
    using getRunner_first_match [of "[page_of [r3, r2, r1]]" ?getOctokit world0 "''x''",
            OF h1 h2 h3]
    by (simp add: page_of_def ok_def r1_def r2_def r3_def)
qed

section \<open>A listing that fails\<close>

text \<open>
  C3. When a request of the listing throws, after any number of full pages,
  \<^verbatim>\<open>getRunner\<close> returns \<^verbatim>\<open>null\<close>, the answer it gives for a runner that is not
  found; \<^verbatim>\<open>getRunner\<close> never throws.
\<close>

theorem getRunner_listing_failure:
  assumes "\<forall>i<length pages.
             GET_runners (getOctokit (githubToken (input (config w)))) (sent w + i) 100 (Suc i)
               (githubContext (config w)) = Inr (pages ! i) \<and>
             100 \<le> length (runners (data (pages ! i)))"
    and "GET_runners (getOctokit (githubToken (input (config w)))) (sent w + length pages) 100
           (Suc (length pages)) (githubContext (config w)) = Inl e"
  shows "(\<exists>w'. getRunner getOctokit lbl w = Some (Inr None, w')) \<and>
         (\<forall>e' w'. getRunner getOctokit lbl w \<noteq> Some (Inl e', w'))"
proof -
  let ?w0 = "core_info (GetRunnerWithLabel lbl) w"
  let ?octokit = "getOctokit (githubToken (input (config w)))"
  have a1: "\<forall>i<length pages.
             GET_runners ?octokit (sent ?w0 + i) PAGE_SIZE (1 + i) (githubContext (config ?w0))
               = Inr (pages ! i)"
    using assms(1) by (simp add: PAGE_SIZE_def)
  have a2: "\<forall>i<length pages. PAGE_SIZE \<le> length (runners (data (pages ! i)))"
    using assms(1) by (simp add: PAGE_SIZE_def)
  have a3: "GET_runners ?octokit (sent ?w0 + length pages) PAGE_SIZE (1 + length pages)
              (githubContext (config ?w0)) = Inl e"
    using assms(2) by (simp add: PAGE_SIZE_def)
  from getRunner_after_error [where getOctokit = getOctokit,
      OF getRunner_while_request_fails [OF a1 a2 a3]]
  have "\<exists>w'. getRunner getOctokit lbl w = Some (Inr None, w')"
    by blast
  then show ?thesis
    by (simp add: getRunner_never_throws)
qed

theorem getRunner_listing_failure_witness:
  "(\<exists>w'. getRunner
           (\<lambda>t. mock_client
                   (\<lambda>n. if n = 0 then Inr (page_of (replicate 100 r1))
                        else Inl (RequestError 502 ''Bad Gateway''))
                   (Inr (ok \<lparr>token = ''abc''\<rparr>)) (Inr (ok ())))
           ''x'' world0 = Some (Inr None, w')) \<and>
   (\<forall>e' w'. getRunner
           (\<lambda>t. mock_client
                   (\<lambda>n. if n = 0 then Inr (page_of (replicate 100 r1))
                        else Inl (RequestError 502 ''Bad Gateway''))
                   (Inr (ok \<lparr>token = ''abc''\<rparr>)) (Inr (ok ())))
           ''x'' world0 \<noteq> Some (Inl e', w'))"
proof -
  let ?getOctokit = "\<lambda>t::string. mock_client
                   (\<lambda>n. if n = 0 then Inr (page_of (replicate 100 r1))
                        else Inl (RequestError 502 ''Bad Gateway''))
                   (Inr (ok \<lparr>token = ''abc''\<rparr>)) (Inr (ok ()))"
  have h1: "\<forall>i<length [page_of (replicate 100 r1)].
             GET_runners (?getOctokit (githubToken (input (config world0)))) (sent world0 + i)
               100 (Suc i) (githubContext (config world0)) = Inr ([page_of (replicate 100 r1)] ! i) \<and>
             100 \<le> length (runners (data ([page_of (replicate 100 r1)] ! i)))"
    by (simp add: mock_client_def world0_def sent_def page_of_def ok_def)
  have h2: "GET_runners (?getOctokit (githubToken (input (config world0))))
              (sent world0 + length [page_of (replicate 100 r1)]) 100
              (Suc (length [page_of (replicate 100 r1)])) (githubContext (config world0))
            = Inl (RequestError 502 ''Bad Gateway'')"
    by (simp add: mock_client_def world0_def sent_def)
  show ?thesis
    using getRunner_listing_failure [of "[page_of (replicate 100 r1)]" ?getOctokit world0
            "RequestError 502 ''Bad Gateway''" "''x''", OF h1 h2]
    by simp
qed

lemma getRunner_while_frame:
  assumes "getRunner_while octokit rs fin page w = Some y"
  shows "config (snd y) = config w \<and>
     (\<exists>evs. events (snd y) = events w @ evs \<and> filter is_DELETE evs = [] \<and>
        filter is_locate evs = [] \<and> filter is_IntervalFired evs = [])"
proof (rule getRunner_while.raw_induct
    [where P = "\<lambda>octokit rs fin page w y. config (snd y) = config w \<and>
       (\<exists>evs. events (snd y) = events w @ evs \<and> filter is_DELETE evs = [] \<and>
          filter is_locate evs = [] \<and> filter is_IntervalFired evs = [])", OF _ assms])
  fix f :: "client \<Rightarrow> runner list \<Rightarrow> bool \<Rightarrow> nat \<Rightarrow> world \<Rightarrow> ((error + runner list) \<times> world) option"
  fix octokit rs fin page w y
  assume IH: "\<And>octokit rs fin page w y. f octokit rs fin page w = Some y \<Longrightarrow>
     config (snd y) = config w \<and>
       (\<exists>evs. events (snd y) = events w @ evs \<and> filter is_DELETE evs = [] \<and>
          filter is_locate evs = [] \<and> filter is_IntervalFired evs = [])"
  assume eq: "(if fin then Some (Inr rs, w)
      else
        let w1 = core_info (SendingRequest PAGE_SIZE page) w;
            (result, w2) = request_GET_runners octokit PAGE_SIZE page (githubContext (config w1)) w1
        in case result of
             Inl error \<Rightarrow> Some (Inl error, w2)
           | Inr response \<Rightarrow>
               let w3 = core_info (ReceivedRunners (length (runners (data response)))) w2;
                   w4 = core_info (ResponseHeaders (headers response)) w3
               in f octokit (rs @ runners (data response))
                    (length (runners (data response)) < PAGE_SIZE) (page + 1) w4) = Some y"
  show "config (snd y) = config w \<and>
       (\<exists>evs. events (snd y) = events w @ evs \<and> filter is_DELETE evs = [] \<and>
          filter is_locate evs = [] \<and> filter is_IntervalFired evs = [])"
  proof (cases fin)
    case True
    with eq show ?thesis by auto
  next
    case False
    show ?thesis
    proof (cases "GET_runners octokit (sent w) PAGE_SIZE page (githubContext (config w))")
      case (Inl e)
      with False eq show ?thesis
        by (auto simp: request_GET_runners_def)
    next
      case (Inr response)
      with False eq have "f octokit (rs @ runners (data response))
             (length (runners (data response)) < PAGE_SIZE) (page + 1)
             (core_info (ResponseHeaders (headers response))
               (core_info (ReceivedRunners (length (runners (data response))))
                 (emit (Request (GET_runners_route PAGE_SIZE page) (githubContext (config w)))
                   (core_info (SendingRequest PAGE_SIZE page) w)))) = Some y"
        by (simp add: request_GET_runners_def)
      from IH [OF this] show ?thesis
        by auto
    qed
  qed
qed

lemma getRunner_frame:
  assumes "getRunner getOctokit lbl w = Some (res, w1)"
  shows "config w1 = config w \<and>
     (\<exists>evs. events w1 =
              events w @ Info (GetRunnerWithLabel lbl) #
                Info (SendingRequest PAGE_SIZE 1) #
                Request (GET_runners_route PAGE_SIZE 1) (githubContext (config w)) # evs \<and>
            filter is_DELETE evs = [] \<and> filter is_locate evs = [] \<and>
            filter is_IntervalFired evs = [])"
proof -
  let ?octokit = "getOctokit (githubToken (input (config w)))"
  let ?w0 = "core_info (GetRunnerWithLabel lbl) w"
  let ?w2 = "emit (Request (GET_runners_route PAGE_SIZE 1) (githubContext (config w)))
               (core_info (SendingRequest PAGE_SIZE 1) ?w0)"
  from assms obtain y where loop: "getRunner_while ?octokit [] False 1 ?w0 = Some y"
    by (auto simp: getRunner_def Let_def split: option.splits)
  have res: "config w1 = config (snd y) \<and>
          (\<exists>evs. events w1 = events (snd y) @ evs \<and> filter is_DELETE evs = [] \<and>
             filter is_locate evs = [] \<and> filter is_IntervalFired evs = [])"
    using assms loop
    by (auto simp: getRunner_def Let_def split: sum.splits prod.splits)
  have "config (snd y) = config w \<and>
          (\<exists>evs. events (snd y) = events ?w2 @ evs \<and> filter is_DELETE evs = [] \<and>
             filter is_locate evs = [] \<and> filter is_IntervalFired evs = [])"
  proof (cases "GET_runners ?octokit (sent w) PAGE_SIZE 1 (githubContext (config w))")
    case (Inl e)
    with loop show ?thesis
      by (auto simp: getRunner_while_step)
  next
    case (Inr response)
    with loop have "getRunner_while ?octokit ([] @ runners (data response))
            (length (runners (data response)) < PAGE_SIZE) (1 + 1)
            (core_info (ResponseHeaders (headers response))
              (core_info (ReceivedRunners (length (runners (data response)))) ?w2)) = Some y"
      by (simp add: getRunner_while_step)
    from getRunner_while_frame [OF this] show ?thesis
      by auto
  qed
  with res show ?thesis
    by auto
qed

lemma DELETE_after_getRunner:
  "getRunner getOctokit lbl w = Some (res, w1) \<Longrightarrow>
     filter is_DELETE (events w1) = filter is_DELETE (events w)"
  by (drule getRunner_frame) (auto simp: PAGE_SIZE_def)

lemma sent_eq_length: "sent w = length (filter is_Request (events w))"
  by (simp add: sent_def)

section \<open>Removal of a runner that is not registered\<close>

text \<open>
  C5. When \<^verbatim>\<open>getRunner\<close> answers \<^verbatim>\<open>null\<close> for the configured label,
  \<^verbatim>\<open>removeRunner\<close> returns without an error, and the whole call, the listing included,
  has sent no DELETE request.
\<close>

theorem removeRunner_not_found:
  assumes "getRunner getOctokit (label (input (config w))) w = Some (Inr None, w1)"
  shows "\<exists>w'. removeRunner getOctokit w = Some (Inr (), w') \<and>
              filter is_DELETE (events w') = filter is_DELETE (events w)"
  using assms DELETE_after_getRunner [OF assms]
  by (simp add: removeRunner_def)

theorem removeRunner_not_found_witness:
  "\<exists>w'. removeRunner
          (\<lambda>t. mock_client (\<lambda>n. Inr (page_of [r3])) (Inr (ok \<lparr>token = ''abc''\<rparr>))
                  (Inr (ok ())))
          world0 = Some (Inr (), w') \<and>
        filter is_DELETE (events w') = []"
proof -
  let ?getOctokit = "\<lambda>t::string. mock_client (\<lambda>n. Inr (page_of [r3]))
                       (Inr (ok \<lparr>token = ''abc''\<rparr>)) (Inr (ok ()))"
  have "\<exists>w1. getRunner ?getOctokit (label (input (config world0))) world0 = Some (Inr None, w1)"
    by (simp add: getRunner_def Let_def getRunner_while_step getRunner_while_done
          mock_client_def page_of_def ok_def PAGE_SIZE_def lodash_filter_def equalArrays_single
          r3_def world0_def)
  then obtain w1 where
    "getRunner ?getOctokit (label (input (config world0))) world0 = Some (Inr None, w1)" ..
  from removeRunner_not_found [where getOctokit = ?getOctokit, OF this] show ?thesis
    by (simp add: world0_def)
qed

lemma events_merge [simp]: "events (lodash_merge_runner_id n w) = events w"
  by (simp add: lodash_merge_runner_id_def)

lemma githubContext_merge [simp]:
  "githubContext (config (lodash_merge_runner_id n w)) =
     AList.update ''runner_id'' (Num n) (githubContext (config w))"
  by (simp add: lodash_merge_runner_id_def)

lemma input_merge [simp]: "input (config (lodash_merge_runner_id n w)) = input (config w)"
  by (simp add: lodash_merge_runner_id_def)

lemma sent_merge [simp]: "sent (lodash_merge_runner_id n w) = sent w"
  by (simp add: lodash_merge_runner_id_def sent_def)

lemma removeRunner_after_getRunner:
  assumes "getRunner getOctokit (label (input (config w))) w = Some (Inr (Some r), w1)"
  shows "removeRunner getOctokit w =
           (let ps = AList.update ''runner_id'' (Num (runner_id r)) (githubContext (config w));
                w3 = emit (Request DELETE_runner_route ps) (lodash_merge_runner_id (runner_id r) w1)
            in case DELETE_runner (getOctokit (githubToken (input (config w)))) (sent w1) ps of
                 Inr response \<Rightarrow> Some (Inr (), core_info (RunnerRemoved (runner_name r)) w3)
               | Inl error \<Rightarrow> Some (Inl error, core_error RunnerRemovalError w3))"
proof -
  from getRunner_frame [OF assms] have cfg: "config w1 = config w"
    by simp
  show ?thesis
    using assms
    by (simp add: removeRunner_def Let_def request_DELETE_runner_def cfg split: sum.splits)
qed

section \<open>Removal of a registered runner\<close>

text \<open>
  C6. When \<^verbatim>\<open>getRunner\<close> answers a runner for the configured label,
  \<^verbatim>\<open>removeRunner\<close> sends exactly one DELETE request, and its parameter
  \<^verbatim>\<open>runner_id\<close> is the id of that runner. When the request succeeds the operation
  returns after the line that the runner is removed; when the request throws, the operation
  logs the removal error and throws the same error to its caller.
\<close>

theorem removeRunner_found:
  assumes "getRunner getOctokit (label (input (config w))) w = Some (Inr (Some r), w1)"
  shows "\<exists>res w' ps.
           removeRunner getOctokit w = Some (res, w') \<and>
           ps = AList.update ''runner_id'' (Num (runner_id r)) (githubContext (config w)) \<and>
           map_of ps ''runner_id'' = Some (Num (runner_id r)) \<and>
           filter is_DELETE (events w') =
             filter is_DELETE (events w) @ [Request DELETE_runner_route ps] \<and>
           (case DELETE_runner (getOctokit (githubToken (input (config w)))) (sent w1) ps of
              Inr response \<Rightarrow>
                res = Inr () \<and> last (events w') = Info (RunnerRemoved (runner_name r))
            | Inl error \<Rightarrow>
                res = Inl error \<and> last (events w') = Error RunnerRemovalError)"
  using removeRunner_after_getRunner [OF assms] DELETE_after_getRunner [OF assms]
  by (auto simp: Let_def update_Some_unfold split: sum.splits)

theorem removeRunner_found_witness:
  "(\<exists>w'. removeRunner
          (\<lambda>t. mock_client (\<lambda>n. Inr (page_of [r1])) (Inr (ok \<lparr>token = ''abc''\<rparr>))
                  (Inr (ok ())))
          world0 = Some (Inr (), w') \<and>
        filter is_DELETE (events w') =
          [Request DELETE_runner_route
             [(''owner'', Str ''octo''), (''repo'', Str ''demo''), (''runner_id'', Num 1)]] \<and>
        last (events w') = Info (RunnerRemoved ''r1'')) \<and>
   (\<exists>w'. removeRunner
          (\<lambda>t. mock_client (\<lambda>n. Inr (page_of [r1])) (Inr (ok \<lparr>token = ''abc''\<rparr>))
                  (Inl (RequestError 403 ''Forbidden'')))
          world0 = Some (Inl (RequestError 403 ''Forbidden''), w') \<and>
        filter is_DELETE (events w') =
          [Request DELETE_runner_route
             [(''owner'', Str ''octo''), (''repo'', Str ''demo''), (''runner_id'', Num 1)]] \<and>
        last (events w') = Error RunnerRemovalError)"
proof -
  let ?good = "\<lambda>t::string. mock_client (\<lambda>n. Inr (page_of [r1]))
                 (Inr (ok \<lparr>token = ''abc''\<rparr>)) (Inr (ok ()))"
  let ?bad = "\<lambda>t::string. mock_client (\<lambda>n. Inr (page_of [r1]))
                (Inr (ok \<lparr>token = ''abc''\<rparr>)) (Inl (RequestError 403 ''Forbidden''))"
  have "\<exists>w1. getRunner ?good (label (input (config world0))) world0 =
               Some (Inr (Some r1), w1)"
    by (simp add: getRunner_def Let_def getRunner_while_step getRunner_while_done
          mock_client_def page_of_def ok_def PAGE_SIZE_def lodash_filter_def equalArrays_single
          r1_def world0_def)
  then obtain w1 where
    "getRunner ?good (label (input (config world0))) world0 = Some (Inr (Some r1), w1)" ..
  from removeRunner_found [where getOctokit = ?good, OF this] have good: "\<exists>w'. removeRunner ?good
          world0 = Some (Inr (), w') \<and>
        filter is_DELETE (events w') =
          [Request DELETE_runner_route
             [(''owner'', Str ''octo''), (''repo'', Str ''demo''), (''runner_id'', Num 1)]] \<and>
        last (events w') = Info (RunnerRemoved ''r1'')"
    by (auto simp: world0_def r1_def mock_client_def)
  have "\<exists>w1. getRunner ?bad (label (input (config world0))) world0 =
               Some (Inr (Some r1), w1)"
    by (simp add: getRunner_def Let_def getRunner_while_step getRunner_while_done
          mock_client_def page_of_def ok_def PAGE_SIZE_def lodash_filter_def equalArrays_single
          r1_def world0_def)
  then obtain w2 where
    "getRunner ?bad (label (input (config world0))) world0 = Some (Inr (Some r1), w2)" ..
  from removeRunner_found [where getOctokit = ?bad, OF this] have "\<exists>w'. removeRunner ?bad
          world0 = Some (Inl (RequestError 403 ''Forbidden''), w') \<and>
        filter is_DELETE (events w') =
          [Request DELETE_runner_route
             [(''owner'', Str ''octo''), (''repo'', Str ''demo''), (''runner_id'', Num 1)]] \<and>
        last (events w') = Error RunnerRemovalError"
    by (auto simp: world0_def r1_def mock_client_def)
  with good show ?thesis
    by blast
qed

lemma timeout_message_text:
  "timeout_message =
     ''A timeout of 5 minutes is exceeded. Your AWS EC2 instance was not able to register itself in GitHub as a new self-hosted runner.''"
  by (simp add: timeout_message_def timeoutMinutes_def)

lemma setInterval_cleared: "\<not> interval st \<Longrightarrow> setInterval getOctokit lbl st w = Some (st, w)"
  by (subst setInterval.simps) simp

lemma setInterval_fires:
  "interval st \<Longrightarrow>
   interval_callback getOctokit lbl st (emit (IntervalFired (retryIntervalSeconds * 1000)) w)
     = Some (st', w') \<Longrightarrow>
   setInterval getOctokit lbl st w = setInterval getOctokit lbl st' w'"
  by (subst setInterval.simps) simp

lemma callback_not_online:
  assumes "getRunner getOctokit lbl w = Some (Inr found, w1)"
    and "\<forall>r. found = Some r \<longrightarrow> runner_status r \<noteq> ''online''"
  shows "interval_callback getOctokit lbl st w =
           (if waitSeconds st > 300
            then Some ((reject timeout_message (clearInterval st))
                         \<lparr>waitSeconds := waitSeconds st + 10\<rparr>,
                       core_info Checking (core_error RunnerRegistrationError w1))
            else Some (st\<lparr>waitSeconds := waitSeconds st + 10\<rparr>, core_info Checking w1))"
  using assms
  by (cases found)
    (simp_all add: interval_callback_def timeoutMinutes_def retryIntervalSeconds_def
       reject_def clearInterval_def)

lemma callback_online:
  assumes "getRunner getOctokit lbl w = Some (Inr (Some r), w1)"
    and "runner_status r = ''online''"
  shows "interval_callback getOctokit lbl st w =
           (if waitSeconds st > 300
            then Some (resolve (clearInterval (reject timeout_message (clearInterval st))),
                       core_info (RunnerRegistered (runner_name r))
                         (core_error RunnerRegistrationError w1))
            else Some (resolve (clearInterval st),
                       core_info (RunnerRegistered (runner_name r)) w1))"
  using assms
  by (simp add: interval_callback_def timeoutMinutes_def)

lemma wait_times_out:
  assumes never: "\<And>w'. config w' = cfg \<Longrightarrow>
             \<exists>found w1. getRunner getOctokit lbl w' = Some (Inr found, w1) \<and>
               (\<forall>r. found = Some r \<longrightarrow> runner_status r \<noteq> ''online'')"
    and "config w = cfg" and "interval st" and "promise st = Pending"
    and "waitSeconds st + 10 * m = 310"
  shows "\<exists>st' w' evs.
           setInterval getOctokit lbl st w = Some (st', w') \<and>
           promise st' = Rejected timeout_message \<and> config w' = cfg \<and>
           events w' = events w @ evs @ [Error RunnerRegistrationError, Info Checking] \<and>
           length (filter is_locate evs) = Suc m \<and>
           length (filter is_IntervalFired evs) = Suc m \<and>
           filter is_DELETE evs = []"
  using assms(2-)
proof (induction m arbitrary: st w)
  case 0
  let ?w = "emit (IntervalFired (retryIntervalSeconds * 1000)) w"
  from never [of ?w] 0(1) obtain found w1 where
    g: "getRunner getOctokit lbl ?w = Some (Inr found, w1)" and
    off: "\<forall>r. found = Some r \<longrightarrow> runner_status r \<noteq> ''online''"
    by auto
  let ?st' = "(reject timeout_message (clearInterval st))\<lparr>waitSeconds := waitSeconds st + 10\<rparr>"
  let ?w' = "core_info Checking (core_error RunnerRegistrationError w1)"
  have cb: "interval_callback getOctokit lbl st ?w = Some (?st', ?w')"
    using callback_not_online [OF g off, of st] 0(4) by simp
  have "setInterval getOctokit lbl st w = setInterval getOctokit lbl ?st' ?w'"
    by (rule setInterval_fires [OF 0(2) cb])
  also have "\<dots> = Some (?st', ?w')"
    by (rule setInterval_cleared) (simp add: reject_def clearInterval_def)
  finally have run: "setInterval getOctokit lbl st w = Some (?st', ?w')" .
  from getRunner_frame [OF g] obtain evs where
    "config w1 = config ?w" and
    "events w1 = events ?w @ Info (GetRunnerWithLabel lbl) #
        Info (SendingRequest PAGE_SIZE 1) #
        Request (GET_runners_route PAGE_SIZE 1) (githubContext (config ?w)) # evs" and
    "filter is_DELETE evs = []" and "filter is_locate evs = []" and
    "filter is_IntervalFired evs = []"
    by blast
  with run 0 show ?case
    by (simp add: reject_def clearInterval_def)
next
  case (Suc m)
  let ?w = "emit (IntervalFired (retryIntervalSeconds * 1000)) w"
  from never [of ?w] Suc.prems(1) obtain found w1 where
    g: "getRunner getOctokit lbl ?w = Some (Inr found, w1)" and
    off: "\<forall>r. found = Some r \<longrightarrow> runner_status r \<noteq> ''online''"
    by auto
  let ?st' = "st\<lparr>waitSeconds := waitSeconds st + 10\<rparr>"
  let ?w' = "core_info Checking w1"
  have cb: "interval_callback getOctokit lbl st ?w = Some (?st', ?w')"
    using callback_not_online [OF g off, of st] Suc.prems(4) by simp
  have step: "setInterval getOctokit lbl st w = setInterval getOctokit lbl ?st' ?w'"
    by (rule setInterval_fires [OF Suc.prems(2) cb])
  from getRunner_frame [OF g] obtain evs where
    cfg1: "config w1 = config ?w" and
    ev1: "events w1 = events ?w @ Info (GetRunnerWithLabel lbl) #
        Info (SendingRequest PAGE_SIZE 1) #
        Request (GET_runners_route PAGE_SIZE 1) (githubContext (config ?w)) # evs" and
    quiet: "filter is_DELETE evs = []" "filter is_locate evs = []"
      "filter is_IntervalFired evs = []"
    by blast
  have "\<exists>st'' w'' evs'.
           setInterval getOctokit lbl ?st' ?w' = Some (st'', w'') \<and>
           promise st'' = Rejected timeout_message \<and> config w'' = cfg \<and>
           events w'' = events ?w' @ evs' @ [Error RunnerRegistrationError, Info Checking] \<and>
           length (filter is_locate evs') = Suc m \<and>
           length (filter is_IntervalFired evs') = Suc m \<and>
           filter is_DELETE evs' = []"
    using Suc.prems cfg1 by (intro Suc.IH) simp_all
  then obtain st'' w'' evs' where
    r: "setInterval getOctokit lbl ?st' ?w' = Some (st'', w'')"
       "promise st'' = Rejected timeout_message" "config w'' = cfg"
       "events w'' = events ?w' @ evs' @ [Error RunnerRegistrationError, Info Checking]"
       "length (filter is_locate evs') = Suc m"
       "length (filter is_IntervalFired evs') = Suc m"
       "filter is_DELETE evs' = []"
    by blast
  let ?evs = "IntervalFired (retryIntervalSeconds * 1000) # Info (GetRunnerWithLabel lbl) #
        Info (SendingRequest PAGE_SIZE 1) #
        Request (GET_runners_route PAGE_SIZE 1) (githubContext (config ?w)) # evs @
        Info Checking # evs'"
  have "events w'' = events w @ ?evs @ [Error RunnerRegistrationError, Info Checking]"
    using r(4) ev1 by simp
  moreover have "length (filter is_locate ?evs) = Suc (Suc m)"
    using r(5) quiet by simp
  moreover have "length (filter is_IntervalFired ?evs) = Suc (Suc m)"
    using r(6) quiet by simp
  moreover have "filter is_DELETE ?evs = []"
    using r(7) quiet by simp
  ultimately show ?case
    using step r(1-3) by (intro exI [of _ st''] exI [of _ w''] exI [of _ ?evs]) simp
qed

lemma waitForRunnerRegistered_rejects:
  assumes "\<forall>w'. config w' = config w \<longrightarrow>
             (\<exists>found w1. getRunner getOctokit lbl w' = Some (Inr found, w1) \<and>
                (\<forall>r. found = Some r \<longrightarrow> runner_status r \<noteq> ''online''))"
  shows "\<exists>w' evs.
           waitForRunnerRegistered getOctokit lbl w = Some (Inl timeout_message, w') \<and>
           config w' = config w \<and>
           events w' = events w @ evs @ [Error RunnerRegistrationError, Info Checking] \<and>
           length (filter is_locate evs) = 32 \<and>
           length (filter is_IntervalFired evs) = 32 \<and>
           filter is_DELETE evs = []"
proof -
  let ?st = "\<lparr>waitSeconds = 0, interval = True, promise = Pending\<rparr>"
  let ?w3 = "core_info (CheckingEvery retryIntervalSeconds)
               (emit (Timeout (quietPeriodSeconds * 1000))
                 (core_info (WaitingQuietPeriod quietPeriodSeconds) w))"
  have never: "\<And>w'. config w' = config w \<Longrightarrow>
             \<exists>found w1. getRunner getOctokit lbl w' = Some (Inr found, w1) \<and>
               (\<forall>r. found = Some r \<longrightarrow> runner_status r \<noteq> ''online'')"
    using assms by blast
  have "\<exists>st' w' evs.
           setInterval getOctokit lbl ?st ?w3 = Some (st', w') \<and>
           promise st' = Rejected timeout_message \<and> config w' = config w \<and>
           events w' = events ?w3 @ evs @ [Error RunnerRegistrationError, Info Checking] \<and>
           length (filter is_locate evs) = Suc 31 \<and>
           length (filter is_IntervalFired evs) = Suc 31 \<and>
           filter is_DELETE evs = []"
    by (rule wait_times_out [where cfg = "config w", OF never]) simp_all
  then obtain st' w' evs where
    r: "setInterval getOctokit lbl ?st ?w3 = Some (st', w')"
       "promise st' = Rejected timeout_message" "config w' = config w"
       "events w' = events ?w3 @ evs @ [Error RunnerRegistrationError, Info Checking]"
       "length (filter is_locate evs) = Suc 31"
       "length (filter is_IntervalFired evs) = Suc 31"
       "filter is_DELETE evs = []"
    by blast
  let ?evs = "Info (WaitingQuietPeriod quietPeriodSeconds) # Timeout (quietPeriodSeconds * 1000) #
              Info (CheckingEvery retryIntervalSeconds) # evs"
  have "waitForRunnerRegistered getOctokit lbl w = Some (Inl timeout_message, w')"
    using r(1,2) by (simp add: waitForRunnerRegistered_def)
  moreover have "events w' = events w @ ?evs @ [Error RunnerRegistrationError, Info Checking]"
    using r(4) by simp
  moreover have "length (filter is_locate ?evs) = 32" "length (filter is_IntervalFired ?evs) = 32"
    "filter is_DELETE ?evs = []"
    using r(5-7) by simp_all
  ultimately show ?thesis
    using r(3) by blast
qed

lemma never_registered_getRunner:
  "getRunner never_registered lbl w =
     Some (Inr None,
       w\<lparr>events := events w @
          [Info (GetRunnerWithLabel lbl), Info (SendingRequest 100 1),
           Request (GET_runners_route 100 1) (githubContext (config w)),
           Info (ReceivedRunners 0), Info (ResponseHeaders []),
           Info (GotRunnersInTotal 0), Info (AllRunners []), Info (FoundResult None)]\<rparr>)"
  by (simp add: getRunner_def Let_def getRunner_while_step getRunner_while_done
        never_registered_def mock_client_def page_of_def ok_def PAGE_SIZE_def lodash_filter_def
        core_info_def emit_def)

section \<open>A registration that never happens\<close>

text \<open>
  C1, as the code has it. Take a wait in which every call of \<^verbatim>\<open>getRunner\<close> returns and
  none returns a runner whose status is \<^verbatim>\<open>online\<close>. The promise is rejected with the
  message that names the timeout of 5 minutes. The timer has fired 32 times by then and
  \<^verbatim>\<open>getRunner\<close> has been called 32 times, once more than \<open>300 / 10 + 1\<close>: the test
  is \<^verbatim>\<open>waitSeconds > 300\<close>, and the counter is 300 when the timer fires for the 31st
  time and 310 when it fires for the 32nd. The last call of \<^verbatim>\<open>getRunner\<close> comes before
  the error line of the timeout.
\<close>

theorem waitForRunnerRegistered_times_out:
  assumes "\<forall>w'. config w' = config w \<longrightarrow>
             (\<exists>found w1. getRunner getOctokit lbl w' = Some (Inr found, w1) \<and>
                (\<forall>r. found = Some r \<longrightarrow> runner_status r \<noteq> ''online''))"
  shows "\<exists>w' evs.
           waitForRunnerRegistered getOctokit lbl w =
             Some (Inl ''A timeout of 5 minutes is exceeded. Your AWS EC2 instance was not able to register itself in GitHub as a new self-hosted runner.'', w') \<and>
           events w' = events w @ evs @ [Error RunnerRegistrationError, Info Checking] \<and>
           length (filter is_locate evs) = 32 \<and>
           length (filter is_IntervalFired evs) = 32"
  using waitForRunnerRegistered_rejects [OF assms] unfolding timeout_message_text
  by blast

theorem waitForRunnerRegistered_times_out_witness:
  "\<exists>w' evs.
     waitForRunnerRegistered never_registered ''x'' world0 =
       Some (Inl ''A timeout of 5 minutes is exceeded. Your AWS EC2 instance was not able to register itself in GitHub as a new self-hosted runner.'', w') \<and>
     events w' = evs @ [Error RunnerRegistrationError, Info Checking] \<and>
     length (filter is_locate evs) = 32 \<and>
     length (filter is_IntervalFired evs) = 32"
proof -
  have h: "\<forall>w'. config w' = config world0 \<longrightarrow>
             (\<exists>found w1. getRunner never_registered ''x'' w' = Some (Inr found, w1) \<and>
                (\<forall>r. found = Some r \<longrightarrow> runner_status r \<noteq> ''online''))"
    by (simp add: never_registered_getRunner)
  show ?thesis
    using waitForRunnerRegistered_times_out [OF h] by (simp add: world0_def)
qed

text \<open>
  The bound of \<open>300 / 10 + 1 = 31\<close> calls fails for a repository without runners.
\<close>

theorem waitForRunnerRegistered_polls_counterexample:
  "map_option fst (waitForRunnerRegistered never_registered ''x'' world0) =
     Some (Inl timeout_message) \<and>
   locate_calls (snd (the (waitForRunnerRegistered never_registered ''x'' world0))) = 32 \<and>
   \<not> locate_calls (snd (the (waitForRunnerRegistered never_registered ''x'' world0)))
       \<le> 300 div 10 + 1"
proof -
  have h: "\<forall>w'. config w' = config world0 \<longrightarrow>
             (\<exists>found w1. getRunner never_registered ''x'' w' = Some (Inr found, w1) \<and>
                (\<forall>r. found = Some r \<longrightarrow> runner_status r \<noteq> ''online''))"
    by (simp add: never_registered_getRunner)
  from waitForRunnerRegistered_rejects [OF h] obtain w' evs where
    "waitForRunnerRegistered never_registered ''x'' world0 = Some (Inl timeout_message, w')"
    "events w' = events world0 @ evs @ [Error RunnerRegistrationError, Info Checking]"
    "length (filter is_locate evs) = 32"
    by blast
  then show ?thesis
    by (simp add: locate_calls_def world0_def)
qed

lemma registered_getRunner:
  "getRunner registered ''x'' w =
     Some (Inr (Some r2),
       w\<lparr>events := events w @
          [Info (GetRunnerWithLabel ''x''), Info (SendingRequest 100 1),
           Request (GET_runners_route 100 1) (githubContext (config w)),
           Info (ReceivedRunners 3), Info (ResponseHeaders []),
           Info (GotRunnersInTotal 3), Info (AllRunners [r3, r2, r1]),
           Info (FoundResult (Some r2))]\<rparr>)"
  by (simp add: getRunner_def Let_def getRunner_while_step getRunner_while_done
        registered_def mock_client_def page_of_def ok_def PAGE_SIZE_def lodash_filter_def
        core_info_def emit_def equalArrays_single r1_def r2_def r3_def)

section \<open>The call of getRunner comes first\<close>

text \<open>
  C10. Every call of the callback that returns has called \<^verbatim>\<open>getRunner\<close> first: the
  trace of the callback starts with the trace of that call, which sends at least the request
  for page 1 of the listing, and only then come the lines of the callback. In the call that
  finds \<^verbatim>\<open>waitSeconds\<close> above the timeout with the promise pending, the first line
  after the call of \<^verbatim>\<open>getRunner\<close> is the error line of the timeout, and the promise
  is rejected whatever \<^verbatim>\<open>getRunner\<close> answered.
\<close>

theorem getRunner_before_timeout_check:
  assumes "interval_callback getOctokit lbl st w = Some (st', w')"
  shows "\<exists>found w1 evs rest.
           getRunner getOctokit lbl w = Some (Inr found, w1) \<and>
           events w1 = events w @ Info (GetRunnerWithLabel lbl) # Info (SendingRequest 100 1) #
             Request (GET_runners_route 100 1) (githubContext (config w)) # evs \<and>
           events w' = events w1 @ rest \<and>
           (waitSeconds st > timeoutMinutes * 60 \<and> promise st = Pending \<longrightarrow>
              hd rest = Error RunnerRegistrationError \<and>
              promise st' = Rejected timeout_message \<and> \<not> interval st')"
proof -
  from assms obtain res w1 where g: "getRunner getOctokit lbl w = Some (res, w1)"
    by (auto simp: interval_callback_def split: option.splits)
  with getRunner_never_throws [of getOctokit lbl w] obtain found where res: "res = Inr found"
    by (cases res) auto
  from getRunner_frame [OF g] obtain evs where
    ev: "events w1 = events w @ Info (GetRunnerWithLabel lbl) # Info (SendingRequest 100 1) #
             Request (GET_runners_route 100 1) (githubContext (config w)) # evs"
    by (auto simp: PAGE_SIZE_def)
  have "\<exists>rest. events w' = events w1 @ rest \<and>
           (waitSeconds st > timeoutMinutes * 60 \<and> promise st = Pending \<longrightarrow>
              hd rest = Error RunnerRegistrationError \<and>
              promise st' = Rejected timeout_message \<and> \<not> interval st')"
    using assms g res
    by (auto simp: interval_callback_def reject_def resolve_def clearInterval_def
          split: option.splits if_splits)
  with g res ev show ?thesis
    by blast
qed

theorem getRunner_before_timeout_check_witness:
  "\<exists>st' w' w1 evs rest.
     interval_callback never_registered ''x'' timed_out_waiter world0 = Some (st', w') \<and>
     getRunner never_registered ''x'' world0 = Some (Inr None, w1) \<and>
     events w1 = Info (GetRunnerWithLabel ''x'') # Info (SendingRequest 100 1) #
       Request (GET_runners_route 100 1) (githubContext (config world0)) # evs \<and>
     events w' = events w1 @ rest \<and>
     hd rest = Error RunnerRegistrationError \<and>
     promise st' = Rejected timeout_message \<and> \<not> interval st'"
proof -
  have "\<exists>st' w'. interval_callback never_registered ''x'' timed_out_waiter world0 = Some (st', w')"
    by (simp add: interval_callback_def never_registered_getRunner)
  then obtain st' w' where
    h: "interval_callback never_registered ''x'' timed_out_waiter world0 = Some (st', w')"
    by blast
  from getRunner_before_timeout_check [OF h] show ?thesis
    using h
    by (auto simp: never_registered_getRunner timed_out_waiter_def timeoutMinutes_def world0_def)
qed

lemma interval_callback_config:
  assumes "interval_callback getOctokit lbl st w = Some (st', w')"
  shows "config w' = config w"
proof -
  from assms obtain res w1 where g: "getRunner getOctokit lbl w = Some (res, w1)"
    by (auto simp: interval_callback_def split: option.splits)
  from getRunner_frame [OF g] have "config w1 = config w"
    by simp
  with assms g show ?thesis
    by (auto simp: interval_callback_def split: sum.splits option.splits if_splits)
qed

lemma setInterval_config:
  assumes "setInterval getOctokit lbl st w = Some y"
  shows "config (snd y) = config w"
proof (rule setInterval.raw_induct
    [where P = "\<lambda>getOctokit lbl st w y. config (snd y) = config w", OF _ assms])
  fix f :: "(string \<Rightarrow> client) \<Rightarrow> string \<Rightarrow> waiter \<Rightarrow> world \<Rightarrow> (waiter \<times> world) option"
  fix getOctokit lbl st w y
  assume IH: "\<And>getOctokit lbl st w y. f getOctokit lbl st w = Some y \<Longrightarrow>
                config (snd y) = config w"
  assume eq: "(if \<not> interval st then Some (st, w)
      else
        case interval_callback getOctokit lbl st
               (emit (IntervalFired (retryIntervalSeconds * 1000)) w) of
          None \<Rightarrow> None
        | Some (st', w') \<Rightarrow> f getOctokit lbl st' w') = Some y"
  show "config (snd y) = config w"
  proof (cases "interval st")
    case False
    with eq show ?thesis by auto
  next
    case True
    with eq obtain st' w' where
      cb: "interval_callback getOctokit lbl st
             (emit (IntervalFired (retryIntervalSeconds * 1000)) w) = Some (st', w')"
      and rest: "f getOctokit lbl st' w' = Some y"
      by (auto split: option.splits)
    from interval_callback_config [OF cb] IH [OF rest] show ?thesis
      by simp
  qed
qed

lemma waitForRunnerRegistered_config:
  assumes "waitForRunnerRegistered getOctokit lbl w = Some (res, w')"
  shows "config w' = config w"
proof -
  from assms obtain st where
    "setInterval getOctokit lbl \<lparr>waitSeconds = 0, interval = True, promise = Pending\<rparr>
       (core_info (CheckingEvery retryIntervalSeconds)
         (emit (Timeout (quietPeriodSeconds * 1000))
           (core_info (WaitingQuietPeriod quietPeriodSeconds) w))) = Some (st, w')"
    by (auto simp: waitForRunnerRegistered_def Let_def split: option.splits promise.splits)
  from setInterval_config [OF this] show ?thesis
    by simp
qed

lemma map_of_update_other: "k \<noteq> k' \<Longrightarrow> map_of (AList.update k v al) k' = map_of al k'"
  by (simp add: update_conv')

lemma removeRunner_config:
  assumes "removeRunner getOctokit w = Some (res, w')"
  shows "\<exists>found w1.
           getRunner getOctokit (label (input (config w))) w = Some (Inr found, w1) \<and>
           input (config w') = input (config w) \<and>
           githubContext (config w') =
             (case found of
                None \<Rightarrow> githubContext (config w)
              | Some r \<Rightarrow>
                  AList.update ''runner_id'' (Num (runner_id r)) (githubContext (config w)))"
proof -
  from assms obtain r1 w1 where
    g: "getRunner getOctokit (label (input (config w))) w = Some (r1, w1)"
    by (auto simp: removeRunner_def split: option.splits)
  with getRunner_never_throws [of getOctokit "label (input (config w))" w]
  obtain found where r1: "r1 = Inr found"
    by (cases r1) auto
  from getRunner_frame [OF g] have cfg: "config w1 = config w"
    by simp
  show ?thesis
  proof (cases found)
    case None
    with assms g r1 cfg show ?thesis
      by (auto simp: removeRunner_def)
  next
    case (Some r)
    with g r1 have "getRunner getOctokit (label (input (config w))) w = Some (Inr (Some r), w1)"
      by simp
    from removeRunner_after_getRunner [OF this] assms g r1 Some cfg show ?thesis
      by (auto simp: Let_def split: sum.splits)
  qed
qed

lemma scenario_getRunner:
  "getRunner scenario ''x'' w =
     Some (Inr (Some r1),
       w\<lparr>events := events w @
          [Info (GetRunnerWithLabel ''x''), Info (SendingRequest 100 1),
           Request (GET_runners_route 100 1) (githubContext (config w)),
           Info (ReceivedRunners 1), Info (ResponseHeaders []),
           Info (GotRunnersInTotal 1), Info (AllRunners [r1]),
           Info (FoundResult (Some r1))]\<rparr>)"
  by (simp add: getRunner_def Let_def getRunner_while_step getRunner_while_done
        scenario_def mock_client_def page_of_def ok_def PAGE_SIZE_def lodash_filter_def
        core_info_def emit_def equalArrays_single r1_def)

lemma scenario_removeRunner:
  "removeRunner scenario world0 =
     Some (Inr (),
       \<lparr>config = \<lparr>input = \<lparr>githubToken = ''secret'', label = ''x''\<rparr>,
                 githubContext = [(''owner'', Str ''octo''), (''repo'', Str ''demo''),
                                  (''runner_id'', Num 1)]\<rparr>,
        events =
          [Info (GetRunnerWithLabel ''x''), Info (SendingRequest 100 1),
           Request (GET_runners_route 100 1) [(''owner'', Str ''octo''), (''repo'', Str ''demo'')],
           Info (ReceivedRunners 1), Info (ResponseHeaders []),
           Info (GotRunnersInTotal 1), Info (AllRunners [r1]),
           Info (FoundResult (Some r1)),
           Request DELETE_runner_route
             [(''owner'', Str ''octo''), (''repo'', Str ''demo''), (''runner_id'', Num 1)],
           Info (RunnerRemoved ''r1'')]\<rparr>)"
proof -
  have "getRunner scenario (label (input (config world0))) world0 =
     Some (Inr (Some r1),
       world0\<lparr>events := events world0 @
          [Info (GetRunnerWithLabel ''x''), Info (SendingRequest 100 1),
           Request (GET_runners_route 100 1) (githubContext (config world0)),
           Info (ReceivedRunners 1), Info (ResponseHeaders []),
           Info (GotRunnersInTotal 1), Info (AllRunners [r1]),
           Info (FoundResult (Some r1))]\<rparr>)"
    using scenario_getRunner [of world0] by (simp add: world0_def)
  from removeRunner_after_getRunner [OF this] show ?thesis
    by (simp add: Let_def scenario_def mock_client_def world0_def core_info_def emit_def
          lodash_merge_runner_id_def r1_def)
qed

lemma registered_wait:
  "\<exists>w'. waitForRunnerRegistered registered ''x'' w = Some (Inr (), w') \<and>
        length (filter is_locate (events w')) = Suc (length (filter is_locate (events w)))"
proof -
  let ?st = "\<lparr>waitSeconds = 0, interval = True, promise = Pending\<rparr>"
  let ?w3 = "core_info (CheckingEvery retryIntervalSeconds)
               (emit (Timeout (quietPeriodSeconds * 1000))
                 (core_info (WaitingQuietPeriod quietPeriodSeconds) w))"
  let ?wt = "emit (IntervalFired (retryIntervalSeconds * 1000)) ?w3"
  let ?w1 = "?wt\<lparr>events := events ?wt @
          [Info (GetRunnerWithLabel ''x''), Info (SendingRequest 100 1),
           Request (GET_runners_route 100 1) (githubContext (config ?wt)),
           Info (ReceivedRunners 3), Info (ResponseHeaders []),
           Info (GotRunnersInTotal 3), Info (AllRunners [r3, r2, r1]),
           Info (FoundResult (Some r2))]\<rparr>"
  have online: "runner_status r2 = ''online''"
    by (simp add: r2_def)
  have cb: "interval_callback registered ''x'' ?st ?wt =
          Some (resolve (clearInterval ?st), core_info (RunnerRegistered (runner_name r2)) ?w1)"
    using callback_online [OF registered_getRunner online, where st = ?st and w = ?wt] by simp
  have "setInterval registered ''x'' ?st ?w3 =
          setInterval registered ''x'' (resolve (clearInterval ?st))
            (core_info (RunnerRegistered (runner_name r2)) ?w1)"
    by (rule setInterval_fires [OF _ cb]) simp
  also have "\<dots> = Some (resolve (clearInterval ?st),
                        core_info (RunnerRegistered (runner_name r2)) ?w1)"
    by (rule setInterval_cleared) (simp add: resolve_def clearInterval_def)
  finally show ?thesis
    by (simp add: waitForRunnerRegistered_def resolve_def clearInterval_def)
qed

section \<open>The shared repository context\<close>

text \<open>
  C8, as the code has it. \<^verbatim>\<open>getRegistrationToken\<close> and
  \<^verbatim>\<open>waitForRunnerRegistered\<close> leave the configuration, and with it
  \<^verbatim>\<open>config.githubContext\<close>, as it was. \<^verbatim>\<open>removeRunner\<close> leaves the inputs and the
  values of \<^verbatim>\<open>owner\<close> and \<^verbatim>\<open>repo\<close> as they were; it leaves the whole context as
  it was when no runner is located, and when a runner is located it writes the key
  \<^verbatim>\<open>runner_id\<close> with the runner's id into the shared context object, since
  \<^verbatim>\<open>_.merge\<close> changes its first argument.
\<close>

theorem githubContext_after_operations:
  "config (snd (getRegistrationToken getOctokit w)) = config w \<and>
   (\<forall>res w'. waitForRunnerRegistered getOctokit lbl w = Some (res, w') \<longrightarrow>
      config w' = config w) \<and>
   (\<forall>res w'. removeRunner getOctokit w = Some (res, w') \<longrightarrow>
      input (config w') = input (config w) \<and>
      map_of (githubContext (config w')) ''owner'' = map_of (githubContext (config w)) ''owner'' \<and>
      map_of (githubContext (config w')) ''repo'' = map_of (githubContext (config w)) ''repo'' \<and>
      (\<exists>found w1.
         getRunner getOctokit (label (input (config w))) w = Some (Inr found, w1) \<and>
         githubContext (config w') =
           (case found of
              None \<Rightarrow> githubContext (config w)
            | Some r \<Rightarrow>
                AList.update ''runner_id'' (Num (runner_id r)) (githubContext (config w)))))"
proof (intro conjI allI impI)
  show "config (snd (getRegistrationToken getOctokit w)) = config w"
    by (simp add: getRegistrationToken_def request_POST_registration_token_def
          split: sum.splits)
next
  fix res w' assume "waitForRunnerRegistered getOctokit lbl w = Some (res, w')"
  then show "config w' = config w"
    by (rule waitForRunnerRegistered_config)
next
  fix res w' assume rm: "removeRunner getOctokit w = Some (res, w')"
  from removeRunner_config [OF rm] obtain found w1 where
    g: "getRunner getOctokit (label (input (config w))) w = Some (Inr found, w1)" and
    i: "input (config w') = input (config w)" and
    c: "githubContext (config w') =
             (case found of
                None \<Rightarrow> githubContext (config w)
              | Some r \<Rightarrow>
                  AList.update ''runner_id'' (Num (runner_id r)) (githubContext (config w)))"
    by blast
  show "input (config w') = input (config w)"
    by (rule i)
  show "map_of (githubContext (config w')) ''owner'' = map_of (githubContext (config w)) ''owner''"
    using c by (cases found) (simp_all add: map_of_update_other)
  show "map_of (githubContext (config w')) ''repo'' = map_of (githubContext (config w)) ''repo''"
    using c by (cases found) (simp_all add: map_of_update_other)
  show "\<exists>found w1.
         getRunner getOctokit (label (input (config w))) w = Some (Inr found, w1) \<and>
         githubContext (config w') =
           (case found of
              None \<Rightarrow> githubContext (config w)
            | Some r \<Rightarrow>
                AList.update ''runner_id'' (Num (runner_id r)) (githubContext (config w)))"
    using g c by blast
qed

theorem githubContext_after_operations_witness:
  "config (snd (getRegistrationToken scenario world0)) = config world0 \<and>
   (\<exists>w'. waitForRunnerRegistered registered ''x'' world0 = Some (Inr (), w') \<and>
      config w' = config world0) \<and>
   (\<exists>w'. removeRunner scenario world0 = Some (Inr (), w') \<and>
      input (config w') = input (config world0) \<and>
      map_of (githubContext (config w')) ''owner'' = Some (Str ''octo'') \<and>
      map_of (githubContext (config w')) ''repo'' = Some (Str ''demo'') \<and>
      githubContext (config w') =
        [(''owner'', Str ''octo''), (''repo'', Str ''demo''), (''runner_id'', Num 1)])"
proof -
  note scen = githubContext_after_operations
                [where getOctokit = scenario and w = world0 and lbl = "''x''"]
  note regd = githubContext_after_operations
                [where getOctokit = registered and w = world0 and lbl = "''x''"]
  have p1: "config (snd (getRegistrationToken scenario world0)) = config world0"
    using scen by (rule conjunct1)
  from registered_wait [of world0] obtain w' where
    w': "waitForRunnerRegistered registered ''x'' world0 = Some (Inr (), w')"
    by blast
  from regd w' have "config w' = config world0"
    by blast
  with w' have p2: "\<exists>w'. waitForRunnerRegistered registered ''x'' world0 = Some (Inr (), w') \<and>
      config w' = config world0"
    by blast
  obtain w'' where r: "removeRunner scenario world0 = Some (Inr (), w'')" and
    c: "githubContext (config w'') =
          [(''owner'', Str ''octo''), (''repo'', Str ''demo''), (''runner_id'', Num 1)]"
    using scenario_removeRunner by simp
  from scen r have "input (config w'') = input (config world0)"
    by blast
  with r c have p3: "\<exists>w'. removeRunner scenario world0 = Some (Inr (), w') \<and>
      input (config w') = input (config world0) \<and>
      map_of (githubContext (config w')) ''owner'' = Some (Str ''octo'') \<and>
      map_of (githubContext (config w')) ''repo'' = Some (Str ''demo'') \<and>
      githubContext (config w') =
        [(''owner'', Str ''octo''), (''repo'', Str ''demo''), (''runner_id'', Num 1)]"
    by simp
  from p1 p2 p3 show ?thesis
    by blast
qed

text \<open>
  In the end-to-end scenario the context has the keys \<^verbatim>\<open>owner\<close> and \<^verbatim>\<open>repo\<close>
  before \<^verbatim>\<open>removeRunner\<close> and a third key, \<^verbatim>\<open>runner_id\<close>, after it.
\<close>

theorem removeRunner_githubContext_counterexample:
  "map_option fst (removeRunner scenario world0) = Some (Inr ()) \<and>
   map fst (githubContext (config world0)) = [''owner'', ''repo''] \<and>
   map fst (githubContext (config (snd (the (removeRunner scenario world0))))) =
     [''owner'', ''repo'', ''runner_id'']"
  by (simp add: scenario_removeRunner) (simp add: world0_def)

section \<open>The event loop: a settled promise, rounds without overlap\<close>

lemma run_append:
  "run getOctokit lbl (xs @ ys) s = run getOctokit lbl ys (run getOctokit lbl xs s)"
  by (induction xs arbitrary: s) simp_all








lemma wait_start_simps [simp]:
  "sys_waiter (wait_start w) = \<lparr>waitSeconds = 0, interval = True, promise = Pending\<rparr>"
  "sys_calls (wait_start w) = []"
  "config (sys_world (wait_start w)) = config w"
  "sent (sys_world (wait_start w)) = sent w"
  by (simp_all add: wait_start_def)




section \<open>The timer without overlap is a schedule of the event loop\<close>

text \<open>
  A call of the callback whose answers arrive one after the other, with no other action in
  between, does what \<^verbatim>\<open>interval_callback\<close> does; so every result of the timer without
  overlap, and of \<^verbatim>\<open>waitForRunnerRegistered\<close> above, is the result of the event loop
  under some schedule.
\<close>

lemma getRunner_return:
  "getRunner getOctokit lbl w =
     (case getRunner_while (getOctokit (githubToken (input (config w)))) [] False 1
             (core_info (GetRunnerWithLabel lbl) w) of
        None \<Rightarrow> None
      | Some y \<Rightarrow> Some (Inr (fst (getRunner_return lbl y)), snd (getRunner_return lbl y)))"
  by (simp add: getRunner_def getRunner_return_def Let_def split: option.splits sum.splits
        prod.splits)

lemma interval_callback_rest:
  "interval_callback getOctokit lbl st w =
     (case getRunner getOctokit lbl w of
        None \<Rightarrow> None
      | Some (Inl error, w1) \<Rightarrow> Some (st, w1)
      | Some (Inr found, w1) \<Rightarrow> Some (callback_rest found st w1))"
  by (simp add: interval_callback_def callback_rest_def Let_def
        split: option.splits sum.splits prod.splits if_splits)

lemma answer_error:
  assumes "call_response c = Inl e"
  shows "step getOctokit lbl (Answer 0) \<lparr>sys_waiter = st, sys_calls = [c], sys_world = w\<rparr> =
           \<lparr>sys_waiter = fst (callback_rest (fst (getRunner_return lbl (Inl e, w))) st
                               (snd (getRunner_return lbl (Inl e, w)))),
            sys_calls = [],
            sys_world = snd (callback_rest (fst (getRunner_return lbl (Inl e, w))) st
                               (snd (getRunner_return lbl (Inl e, w))))\<rparr>"
  using assms
  by (simp add: callback_resume_def getRunner_return_def Let_def split: prod.splits)

lemma answer_short_page:
  assumes "call_response c = Inr response"
    and "length (runners (data response)) < PAGE_SIZE"
  shows "step getOctokit lbl (Answer 0) \<lparr>sys_waiter = st, sys_calls = [c], sys_world = w\<rparr> =
           (let y = (Inr (call_runners c @ runners (data response)),
                     core_info (ResponseHeaders (headers response))
                       (core_info (ReceivedRunners (length (runners (data response)))) w))
            in \<lparr>sys_waiter = fst (callback_rest (fst (getRunner_return lbl y)) st
                                   (snd (getRunner_return lbl y))),
                sys_calls = [],
                sys_world = snd (callback_rest (fst (getRunner_return lbl y)) st
                                   (snd (getRunner_return lbl y)))\<rparr>)"
  using assms
  by (simp add: callback_resume_def getRunner_return_def Let_def split: prod.splits)

lemma answer_full_page:
  assumes "call_response c = Inr response"
    and "\<not> length (runners (data response)) < PAGE_SIZE"
  shows "step getOctokit lbl (Answer 0) \<lparr>sys_waiter = st, sys_calls = [c], sys_world = w\<rparr> =
           (let w4 = core_info (ResponseHeaders (headers response))
                       (core_info (ReceivedRunners (length (runners (data response)))) w);
                cw = getRunner_send (getOctokit (githubToken (input (config w))))
                       (call_runners c @ runners (data response)) (call_page c + 1) w4
            in \<lparr>sys_waiter = st, sys_calls = [fst cw], sys_world = snd cw\<rparr>)"
  using assms
  by (simp add: callback_resume_def Let_def split: prod.splits)

lemma getRunner_send_simps [simp]:
  "call_runners (fst (getRunner_send octokit rs page w)) = rs"
  "call_page (fst (getRunner_send octokit rs page w)) = page"
  "call_response (fst (getRunner_send octokit rs page w)) =
     GET_runners octokit (sent w) PAGE_SIZE page (githubContext (config w))"
  "snd (getRunner_send octokit rs page w) =
     emit (Request (GET_runners_route PAGE_SIZE page) (githubContext (config w)))
       (core_info (SendingRequest PAGE_SIZE page) w)"
  by (simp_all add: getRunner_send_def request_GET_runners_def Let_def)

lemma getRunner_while_answers:
  assumes "getRunner_while octokit rs fin page w = Some y"
  shows "(fin \<longrightarrow> y = (Inr rs, w)) \<and>
         (\<not> fin \<longrightarrow> octokit = getOctokit (githubToken (input (config w))) \<longrightarrow>
            (\<forall>st. \<exists>n. run getOctokit lbl (replicate n (Answer 0))
                     \<lparr>sys_waiter = st,
                      sys_calls = [fst (getRunner_send octokit rs page w)],
                      sys_world = snd (getRunner_send octokit rs page w)\<rparr> =
                   \<lparr>sys_waiter = fst (callback_rest (fst (getRunner_return lbl y)) st
                                        (snd (getRunner_return lbl y))),
                    sys_calls = [],
                    sys_world = snd (callback_rest (fst (getRunner_return lbl y)) st
                                       (snd (getRunner_return lbl y)))\<rparr>))"
proof (rule getRunner_while.raw_induct
    [where P = "\<lambda>octokit rs fin page w y.
       (fin \<longrightarrow> y = (Inr rs, w)) \<and>
       (\<not> fin \<longrightarrow> octokit = getOctokit (githubToken (input (config w))) \<longrightarrow>
            (\<forall>st. \<exists>n. run getOctokit lbl (replicate n (Answer 0))
                     \<lparr>sys_waiter = st,
                      sys_calls = [fst (getRunner_send octokit rs page w)],
                      sys_world = snd (getRunner_send octokit rs page w)\<rparr> =
                   \<lparr>sys_waiter = fst (callback_rest (fst (getRunner_return lbl y)) st
                                        (snd (getRunner_return lbl y))),
                    sys_calls = [],
                    sys_world = snd (callback_rest (fst (getRunner_return lbl y)) st
                                       (snd (getRunner_return lbl y)))\<rparr>))", OF _ assms])
  fix f :: "client \<Rightarrow> runner list \<Rightarrow> bool \<Rightarrow> nat \<Rightarrow> world \<Rightarrow> ((error + runner list) \<times> world) option"
  fix octokit rs fin page w y
  assume IH: "\<And>octokit rs fin page w y. f octokit rs fin page w = Some y \<Longrightarrow>
       (fin \<longrightarrow> y = (Inr rs, w)) \<and>
       (\<not> fin \<longrightarrow> octokit = getOctokit (githubToken (input (config w))) \<longrightarrow>
            (\<forall>st. \<exists>n. run getOctokit lbl (replicate n (Answer 0))
                     \<lparr>sys_waiter = st,
                      sys_calls = [fst (getRunner_send octokit rs page w)],
                      sys_world = snd (getRunner_send octokit rs page w)\<rparr> =
                   \<lparr>sys_waiter = fst (callback_rest (fst (getRunner_return lbl y)) st
                                        (snd (getRunner_return lbl y))),
                    sys_calls = [],
                    sys_world = snd (callback_rest (fst (getRunner_return lbl y)) st
                                       (snd (getRunner_return lbl y)))\<rparr>))"
  assume eq: "(if fin then Some (Inr rs, w)
      else
        let w1 = core_info (SendingRequest PAGE_SIZE page) w;
            (result, w2) = request_GET_runners octokit PAGE_SIZE page (githubContext (config w1)) w1
        in case result of
             Inl error \<Rightarrow> Some (Inl error, w2)
           | Inr response \<Rightarrow>
               let w3 = core_info (ReceivedRunners (length (runners (data response)))) w2;
                   w4 = core_info (ResponseHeaders (headers response)) w3
               in f octokit (rs @ runners (data response))
                    (length (runners (data response)) < PAGE_SIZE) (page + 1) w4) = Some y"
  let ?c = "fst (getRunner_send octokit rs page w)"
  let ?w2 = "snd (getRunner_send octokit rs page w)"
  let ?final = "\<lambda>st. \<lparr>sys_waiter = fst (callback_rest (fst (getRunner_return lbl y)) st
                                        (snd (getRunner_return lbl y))),
                    sys_calls = [],
                    sys_world = snd (callback_rest (fst (getRunner_return lbl y)) st
                                       (snd (getRunner_return lbl y)))\<rparr>"
  show "(fin \<longrightarrow> y = (Inr rs, w)) \<and>
       (\<not> fin \<longrightarrow> octokit = getOctokit (githubToken (input (config w))) \<longrightarrow>
            (\<forall>st. \<exists>n. run getOctokit lbl (replicate n (Answer 0))
                     \<lparr>sys_waiter = st, sys_calls = [?c], sys_world = ?w2\<rparr> = ?final st))"
  proof (cases fin)
    case True
    with eq show ?thesis by auto
  next
    case False
    have "\<exists>n. run getOctokit lbl (replicate n (Answer 0))
                     \<lparr>sys_waiter = st, sys_calls = [?c], sys_world = ?w2\<rparr> = ?final st"
      if o: "octokit = getOctokit (githubToken (input (config w)))" for st
    proof (cases "GET_runners octokit (sent w) PAGE_SIZE page (githubContext (config w))")
      case (Inl e)
      with False eq have y: "y = (Inl e, ?w2)"
        by (simp add: request_GET_runners_def)
      have "call_response ?c = Inl e"
        using Inl by simp
      from answer_error [OF this, of getOctokit lbl st ?w2]
      have "run getOctokit lbl (replicate 1 (Answer 0))
              \<lparr>sys_waiter = st, sys_calls = [?c], sys_world = ?w2\<rparr> = ?final st"
        by (simp add: y del: step.simps getRunner_send_simps)
      then show ?thesis ..
    next
      case (Inr response)
      let ?w4 = "core_info (ResponseHeaders (headers response))
                   (core_info (ReceivedRunners (length (runners (data response)))) ?w2)"
      let ?rs = "rs @ runners (data response)"
      from Inr False eq have rec: "f octokit ?rs
             (length (runners (data response)) < PAGE_SIZE) (page + 1) ?w4 = Some y"
        by (simp add: request_GET_runners_def)
      have resp: "call_response ?c = Inr response"
        using Inr by simp
      show ?thesis
      proof (cases "length (runners (data response)) < PAGE_SIZE")
        case True
        with IH [OF rec] have y: "y = (Inr ?rs, ?w4)"
          by simp
        from answer_short_page [OF resp True, of getOctokit lbl st ?w2]
        have "run getOctokit lbl (replicate 1 (Answer 0))
                \<lparr>sys_waiter = st, sys_calls = [?c], sys_world = ?w2\<rparr> = ?final st"
          by (simp add: y Let_def del: step.simps)
        then show ?thesis ..
      next
        case short: False
        have o4: "octokit = getOctokit (githubToken (input (config ?w4)))"
          using o by simp
        from IH [OF rec] short o4 obtain n where
          n: "run getOctokit lbl (replicate n (Answer 0))
                \<lparr>sys_waiter = st,
                 sys_calls = [fst (getRunner_send octokit ?rs (page + 1) ?w4)],
                 sys_world = snd (getRunner_send octokit ?rs (page + 1) ?w4)\<rparr> = ?final st"
          by blast
        from answer_full_page [OF resp short, of getOctokit lbl st ?w2]
        have "step getOctokit lbl (Answer 0)
                \<lparr>sys_waiter = st, sys_calls = [?c], sys_world = ?w2\<rparr> =
              \<lparr>sys_waiter = st,
                 sys_calls = [fst (getRunner_send octokit ?rs (page + 1) ?w4)],
                 sys_world = snd (getRunner_send octokit ?rs (page + 1) ?w4)\<rparr>"
          using o by (simp add: Let_def del: step.simps)
        with n have "run getOctokit lbl (replicate (Suc n) (Answer 0))
                \<lparr>sys_waiter = st, sys_calls = [?c], sys_world = ?w2\<rparr> = ?final st"
          by (simp del: step.simps getRunner_send_simps)
        then show ?thesis ..
      qed
    qed
    with False show ?thesis
      by blast
  qed
qed

lemma serial_callback:
  assumes "interval_callback getOctokit lbl st
             (emit (IntervalFired (retryIntervalSeconds * 1000)) w) = Some (st', w')"
    and "interval st"
  shows "\<exists>n. run getOctokit lbl (Fire # replicate n (Answer 0))
               \<lparr>sys_waiter = st, sys_calls = [], sys_world = w\<rparr> =
             \<lparr>sys_waiter = st', sys_calls = [], sys_world = w'\<rparr>"
proof -
  let ?wt = "emit (IntervalFired (retryIntervalSeconds * 1000)) w"
  let ?w0 = "core_info (GetRunnerWithLabel lbl) ?wt"
  let ?octokit = "getOctokit (githubToken (input (config ?wt)))"
  from assms(1) obtain y where
    loop: "getRunner_while ?octokit [] False 1 ?w0 = Some y"
    by (auto simp: interval_callback_rest getRunner_return split: option.splits)
  with assms(1) have res: "callback_rest (fst (getRunner_return lbl y)) st
                             (snd (getRunner_return lbl y)) = (st', w')"
    by (simp add: interval_callback_rest getRunner_return)
  have o: "?octokit = getOctokit (githubToken (input (config ?w0)))"
    by simp
  from getRunner_while_answers [OF loop, where getOctokit = getOctokit and lbl = lbl] o
  have "\<forall>st. \<exists>n. run getOctokit lbl (replicate n (Answer 0))
       \<lparr>sys_waiter = st,
        sys_calls = [fst (getRunner_send ?octokit [] 1 ?w0)],
        sys_world = snd (getRunner_send ?octokit [] 1 ?w0)\<rparr> =
     \<lparr>sys_waiter = fst (callback_rest (fst (getRunner_return lbl y)) st
                          (snd (getRunner_return lbl y))),
      sys_calls = [],
      sys_world = snd (callback_rest (fst (getRunner_return lbl y)) st
                         (snd (getRunner_return lbl y)))\<rparr>"
    by blast
  then obtain n where
    "run getOctokit lbl (replicate n (Answer 0))
       \<lparr>sys_waiter = st,
        sys_calls = [fst (getRunner_send ?octokit [] 1 ?w0)],
        sys_world = snd (getRunner_send ?octokit [] 1 ?w0)\<rparr> =
     \<lparr>sys_waiter = fst (callback_rest (fst (getRunner_return lbl y)) st
                          (snd (getRunner_return lbl y))),
      sys_calls = [],
      sys_world = snd (callback_rest (fst (getRunner_return lbl y)) st
                         (snd (getRunner_return lbl y)))\<rparr>"
    by blast
  then have "run getOctokit lbl (replicate n (Answer 0))
       \<lparr>sys_waiter = st,
        sys_calls = [fst (getRunner_send ?octokit [] 1 ?w0)],
        sys_world = snd (getRunner_send ?octokit [] 1 ?w0)\<rparr> =
     \<lparr>sys_waiter = st', sys_calls = [], sys_world = w'\<rparr>"
    by (simp only: res fst_conv snd_conv)
  moreover have "step getOctokit lbl Fire \<lparr>sys_waiter = st, sys_calls = [], sys_world = w\<rparr> =
      \<lparr>sys_waiter = st,
        sys_calls = [fst (getRunner_send ?octokit [] 1 ?w0)],
        sys_world = snd (getRunner_send ?octokit [] 1 ?w0)\<rparr>"
    using assms(2) by (simp add: callback_start_def Let_def case_prod_beta)
  ultimately have "run getOctokit lbl (Fire # replicate n (Answer 0))
               \<lparr>sys_waiter = st, sys_calls = [], sys_world = w\<rparr> =
             \<lparr>sys_waiter = st', sys_calls = [], sys_world = w'\<rparr>"
    by (simp del: step.simps getRunner_send_simps)
  then show ?thesis ..
qed

lemma serial_setInterval:
  assumes "setInterval getOctokit lbl st w = Some y"
  shows "\<exists>sched. run getOctokit lbl sched \<lparr>sys_waiter = st, sys_calls = [], sys_world = w\<rparr> =
                  \<lparr>sys_waiter = fst y, sys_calls = [], sys_world = snd y\<rparr>"
proof (rule setInterval.raw_induct
    [where P = "\<lambda>getOctokit lbl st w y.
       \<exists>sched. run getOctokit lbl sched \<lparr>sys_waiter = st, sys_calls = [], sys_world = w\<rparr> =
                  \<lparr>sys_waiter = fst y, sys_calls = [], sys_world = snd y\<rparr>", OF _ assms])
  fix f :: "(string \<Rightarrow> client) \<Rightarrow> string \<Rightarrow> waiter \<Rightarrow> world \<Rightarrow> (waiter \<times> world) option"
  fix getOctokit lbl st w y
  assume IH: "\<And>getOctokit lbl st w y. f getOctokit lbl st w = Some y \<Longrightarrow>
       \<exists>sched. run getOctokit lbl sched \<lparr>sys_waiter = st, sys_calls = [], sys_world = w\<rparr> =
                  \<lparr>sys_waiter = fst y, sys_calls = [], sys_world = snd y\<rparr>"
  assume eq: "(if \<not> interval st then Some (st, w)
      else
        case interval_callback getOctokit lbl st
               (emit (IntervalFired (retryIntervalSeconds * 1000)) w) of
          None \<Rightarrow> None
        | Some (st', w') \<Rightarrow> f getOctokit lbl st' w') = Some y"
  show "\<exists>sched. run getOctokit lbl sched \<lparr>sys_waiter = st, sys_calls = [], sys_world = w\<rparr> =
                  \<lparr>sys_waiter = fst y, sys_calls = [], sys_world = snd y\<rparr>"
  proof (cases "interval st")
    case False
    with eq have "run getOctokit lbl [] \<lparr>sys_waiter = st, sys_calls = [], sys_world = w\<rparr> =
                  \<lparr>sys_waiter = fst y, sys_calls = [], sys_world = snd y\<rparr>"
      by auto
    then show ?thesis ..
  next
    case True
    with eq obtain st' w' where
      cb: "interval_callback getOctokit lbl st
             (emit (IntervalFired (retryIntervalSeconds * 1000)) w) = Some (st', w')"
      and rest: "f getOctokit lbl st' w' = Some y"
      by (auto split: option.splits)
    from serial_callback [OF cb True] obtain n where
      one: "run getOctokit lbl (Fire # replicate n (Answer 0))
               \<lparr>sys_waiter = st, sys_calls = [], sys_world = w\<rparr> =
             \<lparr>sys_waiter = st', sys_calls = [], sys_world = w'\<rparr>"
      by blast
    from IH [OF rest] obtain sched where
      more: "run getOctokit lbl sched \<lparr>sys_waiter = st', sys_calls = [], sys_world = w'\<rparr> =
                  \<lparr>sys_waiter = fst y, sys_calls = [], sys_world = snd y\<rparr>"
      by blast
    have "run getOctokit lbl ((Fire # replicate n (Answer 0)) @ sched)
            \<lparr>sys_waiter = st, sys_calls = [], sys_world = w\<rparr> =
          \<lparr>sys_waiter = fst y, sys_calls = [], sys_world = snd y\<rparr>"
      by (simp only: run_append one more)
    then show ?thesis ..
  qed
qed

lemma serial_wait:
  assumes "waitForRunnerRegistered getOctokit lbl w = Some (res, w')"
  shows "\<exists>sched. sys_calls (run getOctokit lbl sched (wait_start w)) = [] \<and>
                 sys_world (run getOctokit lbl sched (wait_start w)) = w' \<and>
                 promise (sys_waiter (run getOctokit lbl sched (wait_start w))) =
                   (case res of Inl reason \<Rightarrow> Rejected reason | Inr u \<Rightarrow> Resolved)"
proof -
  let ?st = "\<lparr>waitSeconds = 0, interval = True, promise = Pending\<rparr>"
  let ?w3 = "core_info (CheckingEvery retryIntervalSeconds)
               (emit (Timeout (quietPeriodSeconds * 1000))
                 (core_info (WaitingQuietPeriod quietPeriodSeconds) w))"
  from assms obtain st' where
    run: "setInterval getOctokit lbl ?st ?w3 = Some (st', w')" and
    out: "promise st' = (case res of Inl reason \<Rightarrow> Rejected reason | Inr u \<Rightarrow> Resolved)"
    by (auto simp: waitForRunnerRegistered_def Let_def split: option.splits promise.splits)
  have start: "wait_start w = \<lparr>sys_waiter = ?st, sys_calls = [], sys_world = ?w3\<rparr>"
    by (simp add: wait_start_def)
  from serial_setInterval [OF run] obtain sched where
    "run getOctokit lbl sched (wait_start w) =
       \<lparr>sys_waiter = st', sys_calls = [], sys_world = w'\<rparr>"
    unfolding start by auto
  with out show ?thesis
    by (intro exI [of _ sched]) simp
qed

section \<open>Timeout and registration in the same call of the callback\<close>




end
